theory Spec2Isabelle
  imports Main
begin

section \<open>Time\<close>

text \<open>
  An instant of Go's \<^verbatim>\<open>time.Time\<close> is its position on the process clock in
  nanoseconds, a \<^verbatim>\<open>time.Duration\<close> a number of nanoseconds. Every instant that the
  program compares comes from \<^verbatim>\<open>time.Now()\<close> (or from one by \<^verbatim>\<open>Add\<close>),
  so \<^verbatim>\<open>t.After(u)\<close> is the strict order of the two positions. The 64-bit range of
  a duration (about 292 years) is not modelled.
\<close>

type_synonym time = int
type_synonym duration = int

definition After :: "time \<Rightarrow> time \<Rightarrow> bool" where
  "After t u = (u < t)"

definition Add :: "time \<Rightarrow> duration \<Rightarrow> time" where
  "Add t d = t + d"

section \<open>ratelimit/ratelimit.go\<close>

record RateLimiter =
  requests :: "string \<rightharpoonup> time list"
  maxReqs :: int
  window :: duration

definition NewRateLimiter :: "int \<Rightarrow> duration \<Rightarrow> RateLimiter" where
  "NewRateLimiter maxRequests w =
     \<lparr>requests = Map.empty, maxReqs = maxRequests, window = w\<rparr>"

text \<open>Reading a key that the Go map does not hold gives the nil slice.\<close>

definition requestsOf :: "RateLimiter \<Rightarrow> string \<Rightarrow> time list" where
  "requestsOf rl ip = (case requests rl ip of None \<Rightarrow> [] | Some ts \<Rightarrow> ts)"

text \<open>
  The loop \<^verbatim>\<open>for _, reqTime := range requests { if reqTime.After(cutoff) { append } }\<close>,
  which \<^verbatim>\<open>IsAllowed\<close> and \<^verbatim>\<open>cleanup\<close> both run.
\<close>

fun validRequestsOf :: "time \<Rightarrow> time list \<Rightarrow> time list" where
  "validRequestsOf cutoff [] = []"
| "validRequestsOf cutoff (reqTime # rest) =
     (if After reqTime cutoff then reqTime # validRequestsOf cutoff rest
      else validRequestsOf cutoff rest)"

text \<open>
  \<^verbatim>\<open>IsAllowed\<close> holds the mutex from entry to return, so a call is one atomic step
  from the state before to the state after; \<open>now\<close> is what \<^verbatim>\<open>time.Now()\<close> returns
  inside the call.
\<close>

definition IsAllowed :: "RateLimiter \<Rightarrow> string \<Rightarrow> time \<Rightarrow> bool \<times> RateLimiter" where
  "IsAllowed rl ip now =
     (let cutoff = Add now (- window rl);
          validRequests = validRequestsOf cutoff (requestsOf rl ip)
      in if int (length validRequests) \<ge> maxReqs rl
         then (False, rl\<lparr>requests := (requests rl)(ip \<mapsto> validRequests)\<rparr>)
         else (True, rl\<lparr>requests := (requests rl)(ip \<mapsto> validRequests @ [now])\<rparr>))"

text \<open>The counting loop of \<^verbatim>\<open>GetRequestCount\<close>.\<close>

fun countAfter :: "time \<Rightarrow> time list \<Rightarrow> int \<Rightarrow> int" where
  "countAfter cutoff [] count = count"
| "countAfter cutoff (reqTime # rest) count =
     (if After reqTime cutoff then countAfter cutoff rest (count + 1)
      else countAfter cutoff rest count)"

text \<open>
  \<^verbatim>\<open>GetRequestCount\<close> takes the read lock and writes nothing; the model returns the
  limiter it leaves behind beside the count.
\<close>

definition GetRequestCount :: "RateLimiter \<Rightarrow> string \<Rightarrow> time \<Rightarrow> int \<times> RateLimiter" where
  "GetRequestCount rl ip now =
     (let cutoff = Add now (- window rl)
      in (countAfter cutoff (requestsOf rl ip) 0, rl))"

text \<open>
  One tick of the \<^verbatim>\<open>cleanup\<close> goroutine, under the mutex. The body of the loop over the
  map reads and writes the entry of its own key only, so the order in which Go visits the
  keys does not matter and the tick is the same update at every key.
\<close>

definition cleanupTick :: "RateLimiter \<Rightarrow> time \<Rightarrow> RateLimiter" where
  "cleanupTick rl now =
     (let cutoff = Add now (- window rl)
      in rl\<lparr>requests := (\<lambda>ip.
           case requests rl ip of
             None \<Rightarrow> None
           | Some reqs \<Rightarrow>
               (let validRequests = validRequestsOf cutoff reqs
                in if length validRequests = 0 then None else Some validRequests))\<rparr>)"

text \<open>Histories of the limiter: the three operations, each with its clock reading.\<close>

datatype limiterOp =
    OpIsAllowed string time
  | OpGetRequestCount string time
  | OpCleanupTick time

fun applyOp :: "RateLimiter \<Rightarrow> limiterOp \<Rightarrow> RateLimiter" where
  "applyOp rl (OpIsAllowed ip now) = snd (IsAllowed rl ip now)"
| "applyOp rl (OpGetRequestCount ip now) = snd (GetRequestCount rl ip now)"
| "applyOp rl (OpCleanupTick now) = cleanupTick rl now"

fun runOps :: "RateLimiter \<Rightarrow> limiterOp list \<Rightarrow> RateLimiter" where
  "runOps rl [] = rl"
| "runOps rl (op # ops) = runOps (applyOp rl op) ops"

text \<open>Successive calls of \<^verbatim>\<open>IsAllowed\<close> for one identity, at the given clock readings.\<close>

fun allowedSeq :: "RateLimiter \<Rightarrow> string \<Rightarrow> time list \<Rightarrow> bool list \<times> RateLimiter" where
  "allowedSeq rl ip [] = ([], rl)"
| "allowedSeq rl ip (now # later) =
     (let (ok, rl') = IsAllowed rl ip now;
          (oks, rl'') = allowedSeq rl' ip later
      in (ok # oks, rl''))"

section \<open>Library functions\<close>

text \<open>
  The Go standard library is not part of the repository. What the repository calls from
  \<^verbatim>\<open>crypto/hmac\<close>, \<^verbatim>\<open>crypto/sha256\<close>, \<^verbatim>\<open>encoding/base64\<close>,
  \<^verbatim>\<open>encoding/json\<close> and the Unicode-aware \<^verbatim>\<open>strings.TrimSpace\<close> is a parameter
  of the model:
  \<^item> \<open>hmac_sha256 key msg\<close> is \<^verbatim>\<open>h := hmac.New(sha256.New, key); h.Write(msg); h.Sum(nil)\<close>;
  \<^item> \<open>base64_EncodeToString\<close> and \<open>base64_DecodeString\<close> are those of
    \<^verbatim>\<open>base64.URLEncoding\<close>, the latter \<open>None\<close> where Go returns an error;
  \<^item> \<open>json_Marshal\<close> and \<open>json_Unmarshal\<close> are \<^verbatim>\<open>json.Marshal\<close> and
    \<^verbatim>\<open>json.Unmarshal\<close> at the type \<^verbatim>\<open>TokenClaims\<close>, \<open>None\<close> where Go returns
    an error;
  \<^item> \<open>strings_TrimSpace\<close> is \<^verbatim>\<open>strings.TrimSpace\<close>.
  The byte-level functions of \<^verbatim>\<open>strings\<close> are written out below.
\<close>

record TokenClaims =
  IssuedAt :: time
  ExpiresAt :: time

record Stdlib =
  hmac_sha256 :: "string \<Rightarrow> string \<Rightarrow> string"
  base64_EncodeToString :: "string \<Rightarrow> string"
  base64_DecodeString :: "string \<Rightarrow> string option"
  json_Marshal :: "TokenClaims \<Rightarrow> string option"
  json_Unmarshal :: "string \<Rightarrow> TokenClaims option"
  strings_TrimSpace :: "string \<Rightarrow> string"

text \<open>\<^verbatim>\<open>strings.HasPrefix\<close> and \<^verbatim>\<open>strings.TrimPrefix\<close>.\<close>

definition HasPrefix :: "string \<Rightarrow> string \<Rightarrow> bool" where
  "HasPrefix s pre = (take (length pre) s = pre)"

definition TrimPrefix :: "string \<Rightarrow> string \<Rightarrow> string" where
  "TrimPrefix s pre = (if HasPrefix s pre then drop (length pre) s else s)"

text \<open>
  \<^verbatim>\<open>strings.Index\<close> and \<^verbatim>\<open>strings.LastIndex\<close> for a separator of one byte, which
  is how the repository calls them: the position of the first (last) occurrence, or \<open>-1\<close>.
\<close>

fun Index :: "string \<Rightarrow> char \<Rightarrow> int" where
  "Index [] sep = - 1"
| "Index (c # cs) sep =
     (if c = sep then 0
      else (let i = Index cs sep in if i = - 1 then - 1 else i + 1))"

fun LastIndex :: "string \<Rightarrow> char \<Rightarrow> int" where
  "LastIndex [] sep = - 1"
| "LastIndex (c # cs) sep =
     (let i = LastIndex cs sep
      in if i \<noteq> - 1 then i + 1 else if c = sep then 0 else - 1)"

text \<open>\<^verbatim>\<open>strings.Split\<close> for a separator of one byte; it never returns the empty list.\<close>

fun Split :: "string \<Rightarrow> char \<Rightarrow> string list" where
  "Split [] sep = [[]]"
| "Split (c # cs) sep =
     (if c = sep then [] # Split cs sep
      else (case Split cs sep of
              [] \<Rightarrow> [[c]]
            | part # parts \<Rightarrow> (c # part) # parts))"

text \<open>\<^verbatim>\<open>strings.Trim\<close>: all leading and all trailing bytes of the cutset go.\<close>

definition Trim :: "string \<Rightarrow> string \<Rightarrow> string" where
  "Trim s cutset =
     rev (dropWhile (\<lambda>c. c \<in> set cutset) (rev (dropWhile (\<lambda>c. c \<in> set cutset) s)))"

section \<open>auth/token.go\<close>

datatype error =
    ErrMarshalClaims
  | ErrInvalidTokenFormat
  | ErrInvalidTokenSignature
  | ErrDecodeClaims
  | ErrUnmarshalClaims
  | ErrTokenExpired
  | ErrUnsupportedServiceType string
  | ErrInvalidSharePathFormat
  | ErrTransport

definition GenerateToken :: "Stdlib \<Rightarrow> time \<Rightarrow> duration \<Rightarrow> string \<Rightarrow> error + string" where
  "GenerateToken L now maxAge signingKey =
     (let claims = \<lparr>IssuedAt = now, ExpiresAt = Add now maxAge\<rparr>
      in case json_Marshal L claims of
           None \<Rightarrow> Inl ErrMarshalClaims
         | Some claimsJSON \<Rightarrow>
             (let claimsB64 = base64_EncodeToString L claimsJSON;
                  signature = base64_EncodeToString L (hmac_sha256 L signingKey claimsB64)
              in Inr (claimsB64 @ ''.'' @ signature)))"

text \<open>
  The loop of \<^verbatim>\<open>splitToken\<close> over the characters of the token, with its two variables
  \<open>parts\<close> and \<open>current\<close>. (Go ranges over the runes of the string and puts each back
  as UTF-8; on a string that is valid UTF-8, and a cookie value is ASCII, that is the bytes
  themselves.)
\<close>

fun splitToken_loop :: "string \<Rightarrow> string list \<Rightarrow> string \<Rightarrow> string list \<times> string" where
  "splitToken_loop [] parts current = (parts, current)"
| "splitToken_loop (char # rest) parts current =
     (if char = CHR ''.'' then splitToken_loop rest (parts @ [current]) []
      else splitToken_loop rest parts (current @ [char]))"

definition splitToken :: "string \<Rightarrow> string list" where
  "splitToken token =
     (let (parts, current) = splitToken_loop token [] []
      in if current \<noteq> [] then parts @ [current] else parts)"

definition ValidateToken :: "Stdlib \<Rightarrow> time \<Rightarrow> string \<Rightarrow> string \<Rightarrow> error + TokenClaims" where
  "ValidateToken L now token signingKey =
     (case splitToken token of
        [claimsB64, signatureB64] \<Rightarrow>
          (let expectedSignature =
                 base64_EncodeToString L (hmac_sha256 L signingKey claimsB64)
           in if signatureB64 \<noteq> expectedSignature then Inl ErrInvalidTokenSignature
              else case base64_DecodeString L claimsB64 of
                     None \<Rightarrow> Inl ErrDecodeClaims
                   | Some claimsJSON \<Rightarrow>
                       (case json_Unmarshal L claimsJSON of
                          None \<Rightarrow> Inl ErrUnmarshalClaims
                        | Some claims \<Rightarrow>
                            if After now (ExpiresAt claims) then Inl ErrTokenExpired
                            else Inr claims))
      | _ \<Rightarrow> Inl ErrInvalidTokenFormat)"

section \<open>config/config.go\<close>

record ServiceType =
  Name :: string
  SharePaths :: "string list"
  ValidateMethod :: string
  FullAccessAfterKnock :: bool

definition SupportedServices :: "string \<rightharpoonup> ServiceType" where
  "SupportedServices = map_of
     [(''nextcloud'', \<lparr>Name = ''nextcloud'', SharePaths = [''/s/''],
                       ValidateMethod = ''head'', FullAccessAfterKnock = True\<rparr>),
      (''immich'', \<lparr>Name = ''immich'', SharePaths = [''/share/''],
                    ValidateMethod = ''immichApi'', FullAccessAfterKnock = True\<rparr>),
      (''paperless'', \<lparr>Name = ''paperless'', SharePaths = [''/share/''],
                       ValidateMethod = ''head'', FullAccessAfterKnock = False\<rparr>)]"

text \<open>
  \<^verbatim>\<open>ServiceConfig\<close> (its field \<^verbatim>\<open>Domain\<close> is \<open>Domain'\<close> here) and the fields of
  \<^verbatim>\<open>Config\<close> that the request path reads.
\<close>

record ServiceConfig =
  Type :: string
  URL :: string
  Domain' :: string

record Config =
  Services :: "string \<rightharpoonup> ServiceConfig"
  CookieMaxAge :: duration
  RateLimitRequests :: int
  RateLimitWindow :: duration
  SigningKey :: string

section \<open>The proxy package\<close>

text \<open>
  A \<^verbatim>\<open>ServiceProxy\<close> is the configuration it was built from (its \<^verbatim>\<open>target\<close> is the
  parsed \<^verbatim>\<open>URL\<close> of that configuration, its \<^verbatim>\<open>proxy\<close> the forwarding engine). The
  backend is a parameter: \<open>B target path rawQuery\<close> is what
  \<^verbatim>\<open>http.Head(target.ResolveReference(&url.URL{Path: path, RawQuery: rawQuery}).String())\<close>
  gives, the status code of the response or the transport error.
\<close>

record ServiceProxy =
  spConfig :: ServiceConfig

record ProxyManager =
  proxies :: "string \<rightharpoonup> ServiceProxy"

type_synonym Backend = "string \<Rightarrow> string \<Rightarrow> string \<Rightarrow> error + int"

text \<open>
  \<^verbatim>\<open>NewProxyManager\<close> stores one proxy under each hostname of the configuration. (It
  fails when \<^verbatim>\<open>url.Parse\<close> rejects a \<^verbatim>\<open>URL\<close>; \<^verbatim>\<open>config.Load\<close> has parsed the
  same string before, so that branch is left out.)
\<close>

definition NewProxyManager :: "(string \<rightharpoonup> ServiceConfig) \<Rightarrow> ProxyManager" where
  "NewProxyManager services =
     \<lparr>proxies = (\<lambda>hostname.
        case services hostname of
          None \<Rightarrow> None
        | Some serviceConfig \<Rightarrow> Some \<lparr>spConfig = serviceConfig\<rparr>)\<rparr>"

definition GetProxy :: "ProxyManager \<Rightarrow> string \<Rightarrow> ServiceProxy option" where
  "GetProxy pm hostname = proxies pm hostname"

definition GetServiceConfig :: "ServiceProxy \<Rightarrow> ServiceConfig" where
  "GetServiceConfig sp = spConfig sp"

definition validateByHead :: "Backend \<Rightarrow> ServiceProxy \<Rightarrow> string \<Rightarrow> bool \<times> int \<times> error option" where
  "validateByHead B sp sharePath =
     (case B (URL (spConfig sp)) sharePath [] of
        Inl err \<Rightarrow> (False, 0, Some err)
      | Inr StatusCode \<Rightarrow> (StatusCode = 200, StatusCode, None))"

definition extractShareKey :: "string \<Rightarrow> string \<Rightarrow> string" where
  "extractShareKey sharePath pre =
     (if \<not> HasPrefix sharePath pre then []
      else (let key = TrimPrefix sharePath pre;
                key = (let idx = Index key CHR ''/''
                       in if idx \<noteq> - 1 then take (nat idx) key else key);
                key = (let idx = Index key CHR ''?''
                       in if idx \<noteq> - 1 then take (nat idx) key else key)
            in key))"

definition validateImmichAPI :: "Backend \<Rightarrow> ServiceProxy \<Rightarrow> string \<Rightarrow> bool \<times> int \<times> error option" where
  "validateImmichAPI B sp sharePath =
     (let key = extractShareKey sharePath ''/share/''
      in if key = [] then (False, 400, Some ErrInvalidSharePathFormat)
         else (case B (URL (spConfig sp)) ''/api/shared-links/me'' (''key='' @ key) of
                 Inl err \<Rightarrow> (False, 0, Some err)
               | Inr StatusCode \<Rightarrow> (StatusCode = 200, StatusCode, None)))"

definition ValidateShare :: "Backend \<Rightarrow> ServiceProxy \<Rightarrow> string \<Rightarrow> bool \<times> int \<times> error option" where
  "ValidateShare B sp sharePath =
     (case SupportedServices (Type (spConfig sp)) of
        None \<Rightarrow> (False, 0, Some (ErrUnsupportedServiceType (Type (spConfig sp))))
      | Some serviceType \<Rightarrow>
          if ValidateMethod serviceType = ''head'' then validateByHead B sp sharePath
          else if ValidateMethod serviceType = ''immichApi'' then validateImmichAPI B sp sharePath
          else validateByHead B sp sharePath)"

section \<open>The handlers package\<close>

text \<open>
  The handler modelled is the one for several services with the optional metrics
  collector (\<^verbatim>\<open>NewHandler(cfg, pm, rl, collector)\<close>), which \<^verbatim>\<open>main\<close> installs.

  A request, as far as the handler reads it: \<open>Header r k\<close> is \<^verbatim>\<open>r.Header.Get(k)\<close>
  (the empty string when the header is absent), \<open>Cookies r n\<close> the value of
  \<^verbatim>\<open>r.Cookie(n)\<close> (\<open>None\<close> when Go returns \<^verbatim>\<open>ErrNoCookie\<close>), \<open>Path\<close> is
  \<^verbatim>\<open>r.URL.Path\<close>.
\<close>

record Request =
  Host :: string
  Method :: string
  Path :: string
  Header :: "string \<Rightarrow> string"
  Cookies :: "string \<rightharpoonup> string"
  RemoteAddr :: string

record Handler =
  config :: Config
  proxyManager :: ProxyManager
  rateLimiter :: RateLimiter

text \<open>
  The cookie that \<^verbatim>\<open>handleShareKnock\<close> sets. \<^verbatim>\<open>MaxAge\<close> is
  \<^verbatim>\<open>int(CookieMaxAge.Seconds())\<close>, a conversion through \<^verbatim>\<open>float64\<close>;
  \<^verbatim>\<open>config.Load\<close> only builds whole numbers of seconds, for which it is the exact
  quotient that the model takes. No property below depends on this field.
\<close>

record Cookie =
  cookieName :: string
  cookieValue :: string
  cookieDomain :: string
  cookiePath :: string
  cookieMaxAge :: int
  cookieHttpOnly :: bool
  cookieSecure :: bool
  cookieSameSite :: string

text \<open>
  What a request does is the sequence of the calls it makes into the other components, in
  the order of the source, the response it writes, and the limiter it leaves behind. The
  calls on the optional metrics collector (each behind \<^verbatim>\<open>if h.collector != nil\<close>,
  beside a call of the logger) and the durations that are only logged are left out.
\<close>

datatype details =
    ErrorDetails error
  | RateLimitDetails int duration
  | ShareDetails string string

datatype event =
    Call_ValidateToken string
  | Call_isSharePath string
  | Call_IsAllowed string
  | Call_GetRequestCount string
  | Call_ValidateShare string
  | Call_GenerateToken
  | Call_SetCookie Cookie
  | Call_ProxyServeHTTP
  | Call_httpError string int
  | Call_LogAccess string string string int
  | Call_LogSecurity string string details
  | Call_LogValidation string string bool int
  | Call_LogError string error

datatype response = Proxied | HttpError string int

record Result =
  response :: response
  events :: "event list"
  limiter :: RateLimiter

text \<open>
  The readings of \<^verbatim>\<open>time.Now()\<close> during one request, one for each place that reads
  the clock and acts on it.
\<close>

record Clock =
  nowValidateToken :: time
  nowIsAllowed :: time
  nowGetRequestCount :: time
  nowGenerateToken :: time

definition getClientIP :: "Stdlib \<Rightarrow> Request \<Rightarrow> string" where
  "getClientIP L r =
     (let xff = Header r ''X-Forwarded-For'';
          fromXFF = (if xff \<noteq> []
                     then (case Split xff CHR '','' of
                             [] \<Rightarrow> None
                           | ip0 # _ \<Rightarrow> Some (strings_TrimSpace L ip0))
                     else None)
      in case fromXFF of
           Some ip \<Rightarrow> ip
         | None \<Rightarrow>
             (let xri = Header r ''X-Real-IP''
              in if xri \<noteq> [] then strings_TrimSpace L xri
                 else (let ip = RemoteAddr r;
                           colon = LastIndex ip CHR '':'';
                           ip = (if colon \<noteq> - 1 then take (nat colon) ip else ip)
                       in Trim ip ''[]'')))"

fun isSharePath_loop :: "string \<Rightarrow> string list \<Rightarrow> bool" where
  "isSharePath_loop path [] = False"
| "isSharePath_loop path (sharePath # rest) =
     (if HasPrefix path sharePath then True else isSharePath_loop path rest)"

definition isSharePath :: "string \<Rightarrow> ServiceType \<Rightarrow> bool" where
  "isSharePath path serviceType = isSharePath_loop path (SharePaths serviceType)"

definition sessionCookie :: "Handler \<Rightarrow> ServiceConfig \<Rightarrow> string \<Rightarrow> Cookie" where
  "sessionCookie h serviceConfig token =
     \<lparr>cookieName = ''sneak-link-token'', cookieValue = token,
      cookieDomain = Domain' serviceConfig, cookiePath = ''/'',
      cookieMaxAge = CookieMaxAge (config h) div 1000000000,
      cookieHttpOnly = True, cookieSecure = True, cookieSameSite = ''Lax''\<rparr>"

definition handleShareKnock ::
  "Stdlib \<Rightarrow> Backend \<Rightarrow> Clock \<Rightarrow> Handler \<Rightarrow> Request \<Rightarrow> string \<Rightarrow> ServiceProxy \<Rightarrow> ServiceType
     \<Rightarrow> response \<times> event list" where
  "handleShareKnock L B clk h r clientIP serviceProxy serviceType =
     (let sharePath = Path r;
          serviceConfig = GetServiceConfig serviceProxy;
          serviceName = Type serviceConfig;
          (valid, status, err) = ValidateShare B serviceProxy sharePath
      in case err of
           Some e \<Rightarrow>
             (HttpError ''Internal Server Error'' 500,
              [Call_ValidateShare sharePath,
               Call_LogError ''Failed to validate share'' e,
               Call_httpError ''Internal Server Error'' 500,
               Call_LogAccess clientIP (Method r) sharePath 500])
         | None \<Rightarrow>
             if \<not> valid then
               (HttpError ''Not Found'' 404,
                [Call_ValidateShare sharePath,
                 Call_LogValidation clientIP sharePath valid status]
                @ (if status = 404
                   then [Call_LogSecurity ''invalid_share_attempt'' clientIP
                           (ShareDetails sharePath serviceName)]
                   else [])
                @ [Call_httpError ''Not Found'' 404,
                   Call_LogAccess clientIP (Method r) sharePath 404])
             else if FullAccessAfterKnock serviceType then
               (case GenerateToken L (nowGenerateToken clk) (CookieMaxAge (config h))
                       (SigningKey (config h)) of
                  Inl e \<Rightarrow>
                    (HttpError ''Internal Server Error'' 500,
                     [Call_ValidateShare sharePath,
                      Call_LogValidation clientIP sharePath valid status,
                      Call_GenerateToken,
                      Call_LogError ''Failed to generate token'' e,
                      Call_httpError ''Internal Server Error'' 500,
                      Call_LogAccess clientIP (Method r) sharePath 500])
                | Inr token \<Rightarrow>
                    (Proxied,
                     [Call_ValidateShare sharePath,
                      Call_LogValidation clientIP sharePath valid status,
                      Call_GenerateToken,
                      Call_SetCookie (sessionCookie h serviceConfig token),
                      Call_LogSecurity ''access_granted'' clientIP
                        (ShareDetails sharePath serviceName),
                      Call_ProxyServeHTTP,
                      Call_LogAccess clientIP (Method r) sharePath 200]))
             else
               (Proxied,
                [Call_ValidateShare sharePath,
                 Call_LogValidation clientIP sharePath valid status,
                 Call_LogSecurity ''access_granted'' clientIP
                   (ShareDetails sharePath serviceName),
                 Call_ProxyServeHTTP,
                 Call_LogAccess clientIP (Method r) sharePath 200]))"

text \<open>
  \<^verbatim>\<open>ServeHTTP\<close> from the check of the share path on (the part after the token check).
  \<open>evs\<close> are the calls made so far.
\<close>

definition serveUnauthenticated ::
  "Stdlib \<Rightarrow> Backend \<Rightarrow> Clock \<Rightarrow> Handler \<Rightarrow> Request \<Rightarrow> string \<Rightarrow> ServiceProxy \<Rightarrow> ServiceType
     \<Rightarrow> event list \<Rightarrow> Result" where
  "serveUnauthenticated L B clk h r clientIP serviceProxy serviceType evs =
     (if isSharePath (Path r) serviceType then
        (let (allowed, rl) = IsAllowed (rateLimiter h) clientIP (nowIsAllowed clk)
         in if \<not> allowed then
              (let (count, rl') = GetRequestCount rl clientIP (nowGetRequestCount clk)
               in \<lparr>response = HttpError ''Too Many Requests'' 429,
                   events = evs @
                     [Call_isSharePath (Path r),
                      Call_IsAllowed clientIP,
                      Call_GetRequestCount clientIP,
                      Call_LogSecurity ''rate_limit_exceeded'' clientIP
                        (RateLimitDetails count (RateLimitWindow (config h))),
                      Call_httpError ''Too Many Requests'' 429,
                      Call_LogAccess clientIP (Method r) (Path r) 429],
                   limiter = rl'\<rparr>)
            else
              (let (resp, knock) = handleShareKnock L B clk h r clientIP serviceProxy serviceType
               in \<lparr>response = resp,
                   events = evs @ [Call_isSharePath (Path r), Call_IsAllowed clientIP] @ knock,
                   limiter = rl\<rparr>))
      else if \<not> FullAccessAfterKnock serviceType then
        \<lparr>response = HttpError ''Access Denied'' 403,
         events = evs @
           [Call_isSharePath (Path r),
            Call_httpError ''Access Denied'' 403,
            Call_LogAccess clientIP (Method r) (Path r) 403],
         limiter = rateLimiter h\<rparr>
      else
        \<lparr>response = HttpError ''Access Denied'' 403,
         events = evs @
           [Call_isSharePath (Path r),
            Call_httpError ''Access Denied'' 403,
            Call_LogAccess clientIP (Method r) (Path r) 403],
         limiter = rateLimiter h\<rparr>)"

definition ServeHTTP :: "Stdlib \<Rightarrow> Backend \<Rightarrow> Clock \<Rightarrow> Handler \<Rightarrow> Request \<Rightarrow> Result" where
  "ServeHTTP L B clk h r =
     (let clientIP = getClientIP L r
      in case GetProxy (proxyManager h) (Host r) of
           None \<Rightarrow>
             \<lparr>response = HttpError ''Service Not Found'' 404,
              events = [Call_httpError ''Service Not Found'' 404,
                        Call_LogAccess clientIP (Method r) (Path r) 404],
              limiter = rateLimiter h\<rparr>
         | Some serviceProxy \<Rightarrow>
             (let serviceConfig = GetServiceConfig serviceProxy;
                  serviceName = Type serviceConfig
              in case SupportedServices serviceName of
                   None \<Rightarrow>
                     \<lparr>response = HttpError ''Unsupported Service'' 500,
                      events = [Call_httpError ''Unsupported Service'' 500,
                                Call_LogAccess clientIP (Method r) (Path r) 500],
                      limiter = rateLimiter h\<rparr>
                 | Some serviceType \<Rightarrow>
                     if FullAccessAfterKnock serviceType then
                       (case Cookies r ''sneak-link-token'' of
                          None \<Rightarrow>
                            serveUnauthenticated L B clk h r clientIP serviceProxy serviceType []
                        | Some cookieVal \<Rightarrow>
                            (case ValidateToken L (nowValidateToken clk) cookieVal
                                    (SigningKey (config h)) of
                               Inr _ \<Rightarrow>
                                 \<lparr>response = Proxied,
                                  events = [Call_ValidateToken cookieVal,
                                            Call_ProxyServeHTTP,
                                            Call_LogAccess clientIP (Method r) (Path r) 200],
                                  limiter = rateLimiter h\<rparr>
                             | Inl err \<Rightarrow>
                                 serveUnauthenticated L B clk h r clientIP serviceProxy
                                   serviceType
                                   [Call_ValidateToken cookieVal,
                                    Call_LogSecurity ''invalid_token'' clientIP
                                      (ErrorDetails err)]))
                     else serveUnauthenticated L B clk h r clientIP serviceProxy serviceType []))"

section \<open>What the model assumes of the library\<close>

text \<open>
  The facts about the library functions that the properties of the tokens rest on: a
  marshalled \<^verbatim>\<open>TokenClaims\<close> unmarshals to the same two instants, base64 decodes what
  it encoded, its alphabet has no \<open>.\<close>, it encodes a non-empty input to a non-empty
  output, and a MAC is not empty (it has 32 bytes).
\<close>

definition libraryLaws :: "Stdlib \<Rightarrow> bool" where
  "libraryLaws L =
     ((\<forall>c j. json_Marshal L c = Some j \<longrightarrow> json_Unmarshal L j = Some c) \<and>
      (\<forall>s. base64_DecodeString L (base64_EncodeToString L s) = Some s) \<and>
      (\<forall>s. CHR ''.'' \<notin> set (base64_EncodeToString L s)) \<and>
      (\<forall>s. s \<noteq> [] \<longrightarrow> base64_EncodeToString L s \<noteq> []) \<and>
      (\<forall>k m. hmac_sha256 L k m \<noteq> []))"

section \<open>A small library to run the model on\<close>

text \<open>
  To evaluate the model on concrete requests the library parameter needs a value. This
  one keeps the laws above with the least machinery: base16 in place of base64, two bytes
  for the two instants of the claims (marshalling fails outside \<open>0..255\<close>, as Go's fails
  outside the years \<open>0..9999\<close>), the key and the message put together in place of the MAC,
  and the ASCII part of \<^verbatim>\<open>TrimSpace\<close>.
\<close>

definition hexDigits :: string where
  "hexDigits = ''0123456789abcdef''"

definition hexOf :: "nat \<Rightarrow> char" where
  "hexOf n = hexDigits ! n"

fun hexEncode :: "string \<Rightarrow> string" where
  "hexEncode [] = []"
| "hexEncode (c # cs) =
     hexOf (of_char c div 16) # hexOf (of_char c mod 16) # hexEncode cs"

definition hexVal :: "char \<Rightarrow> nat option" where
  "hexVal c = map_of (zip hexDigits [0..<16]) c"

fun hexDecode :: "string \<Rightarrow> string option" where
  "hexDecode [] = Some []"
| "hexDecode [a] = None"
| "hexDecode (a # b # cs) =
     (case (hexVal a, hexVal b, hexDecode cs) of
        (Some hi, Some lo, Some rest) \<Rightarrow> Some (char_of (16 * hi + lo) # rest)
      | _ \<Rightarrow> None)"

definition sample_hmac :: "string \<Rightarrow> string \<Rightarrow> string" where
  "sample_hmac key msg = ''mac:'' @ key @ '':'' @ msg"

definition sample_Marshal :: "TokenClaims \<Rightarrow> string option" where
  "sample_Marshal c =
     (if 0 \<le> IssuedAt c \<and> IssuedAt c < 256 \<and> 0 \<le> ExpiresAt c \<and> ExpiresAt c < 256
      then Some [char_of (nat (IssuedAt c)), char_of (nat (ExpiresAt c))]
      else None)"

fun sample_Unmarshal :: "string \<Rightarrow> TokenClaims option" where
  "sample_Unmarshal [a, b] = Some \<lparr>IssuedAt = int (of_char a), ExpiresAt = int (of_char b)\<rparr>"
| "sample_Unmarshal _ = None"

definition asciiSpace :: "char \<Rightarrow> bool" where
  "asciiSpace c = (c \<in> set [CHR 0x09, CHR 0x0A, CHR 0x0B, CHR 0x0C, CHR 0x0D, CHR '' ''])"

definition sample_TrimSpace :: "string \<Rightarrow> string" where
  "sample_TrimSpace s = rev (dropWhile asciiSpace (rev (dropWhile asciiSpace s)))"

definition sampleLib :: Stdlib where
  "sampleLib =
     \<lparr>hmac_sha256 = sample_hmac,
      base64_EncodeToString = hexEncode,
      base64_DecodeString = hexDecode,
      json_Marshal = sample_Marshal,
      json_Unmarshal = sample_Unmarshal,
      strings_TrimSpace = sample_TrimSpace\<rparr>"

text \<open>
  A gateway in front of a Nextcloud (sessions granted) and a Paperless (single requests
  only), with the limit of one knock in ten clock units, and requests to it.
\<close>

definition sampleConfig :: Config where
  "sampleConfig =
     \<lparr>Services =
        [''cloud.example.com'' \<mapsto>
           \<lparr>Type = ''nextcloud'', URL = ''http://cloud.internal:8080'', Domain' = ''cloud.internal''\<rparr>,
         ''docs.example.com'' \<mapsto>
           \<lparr>Type = ''paperless'', URL = ''http://docs.internal:8000'', Domain' = ''docs.internal''\<rparr>],
      CookieMaxAge = 5, RateLimitRequests = 1, RateLimitWindow = 10, SigningKey = ''k''\<rparr>"

definition sampleHandler :: Handler where
  "sampleHandler =
     \<lparr>config = sampleConfig,
      proxyManager = NewProxyManager (Services sampleConfig),
      rateLimiter = NewRateLimiter (RateLimitRequests sampleConfig) (RateLimitWindow sampleConfig)\<rparr>"

definition sampleBackend :: Backend where
  "sampleBackend target path rawQuery =
     (if path = ''/s/AbCdEf123'' \<or> path = ''/share/XyZ789'' then Inr 200 else Inr 404)"

definition sampleClock :: Clock where
  "sampleClock =
     \<lparr>nowValidateToken = 7, nowIsAllowed = 7, nowGetRequestCount = 7, nowGenerateToken = 5\<rparr>"

definition sampleRequest :: "string \<Rightarrow> string \<Rightarrow> string option \<Rightarrow> Request" where
  "sampleRequest host path token =
     \<lparr>Host = host, Method = ''GET'', Path = path,
      Header = (\<lambda>name. []),
      Cookies = (\<lambda>name. if name = ''sneak-link-token'' then token else None),
      RemoteAddr = ''203.0.113.9:4711''\<rparr>"

section \<open>Properties of the rate limiter\<close>

lemma validRequestsOf_filter: "validRequestsOf cutoff ts = filter (\<lambda>t. cutoff < t) ts"
  by (induction ts) (simp_all add: After_def)

lemma requestsOf_IsAllowed_same:
  "requestsOf (snd (IsAllowed rl ip now)) ip =
     (let kept = filter (\<lambda>t. now - window rl < t) (requestsOf rl ip)
      in if maxReqs rl \<le> int (length kept) then kept else kept @ [now])"
  by (simp add: IsAllowed_def Let_def requestsOf_def validRequestsOf_filter Add_def)

lemma fst_IsAllowed:
  "fst (IsAllowed rl ip now) =
     (int (length (filter (\<lambda>t. now - window rl < t) (requestsOf rl ip))) < maxReqs rl)"
  by (auto simp add: IsAllowed_def Let_def validRequestsOf_filter Add_def)

lemma IsAllowed_keeps_config:
  "maxReqs (snd (IsAllowed rl ip now)) = maxReqs rl"
  "window (snd (IsAllowed rl ip now)) = window rl"
  by (simp_all add: IsAllowed_def Let_def)

lemma allowedSeq_Cons:
  "allowedSeq rl ip (now # later) =
     (fst (IsAllowed rl ip now) # fst (allowedSeq (snd (IsAllowed rl ip now)) ip later),
      snd (allowedSeq (snd (IsAllowed rl ip now)) ip later))"
  by (simp add: split_beta Let_def)

lemma allowedSeq_under_limit:
  "int (length (requestsOf rl ip)) + int (length ts) \<le> maxReqs rl \<Longrightarrow>
   fst (allowedSeq rl ip ts) = replicate (length ts) True"
proof (induction ts arbitrary: rl)
  case Nil
  then show ?case by simp
next
  case (Cons now later)
  let ?kept = "filter (\<lambda>t. now - window rl < t) (requestsOf rl ip)"
  have le: "int (length ?kept) \<le> int (length (requestsOf rl ip))" by simp
  have bound: "int (length (requestsOf rl ip)) + (1 + int (length later)) \<le> maxReqs rl"
    using Cons.prems by simp
  have "int (length ?kept) < maxReqs rl"
    using le bound by linarith
  then have ok: "fst (IsAllowed rl ip now)"
    by (simp only: fst_IsAllowed)
  have "int (length (requestsOf (snd (IsAllowed rl ip now)) ip))
          \<le> int (length (requestsOf rl ip)) + 1"
    using le by (simp add: requestsOf_IsAllowed_same Let_def del: length_filter_le)
  with bound
  have "int (length (requestsOf (snd (IsAllowed rl ip now)) ip)) + int (length later)
          \<le> maxReqs (snd (IsAllowed rl ip now))"
    by (simp add: IsAllowed_keeps_config)
  from Cons.IH[OF this] ok show ?case
    by (simp add: allowedSeq_Cons del: allowedSeq.simps)
qed

lemma allowedSeq_all_recorded:
  "int (length (requestsOf rl ip)) + int (length ts) \<le> maxReqs rl \<Longrightarrow>
   \<forall>x \<in> set (requestsOf rl ip) \<union> set ts. \<forall>y \<in> set ts. y - window rl < x \<Longrightarrow>
   requestsOf (snd (allowedSeq rl ip ts)) ip = requestsOf rl ip @ ts
   \<and> maxReqs (snd (allowedSeq rl ip ts)) = maxReqs rl
   \<and> window (snd (allowedSeq rl ip ts)) = window rl"
proof (induction ts arbitrary: rl)
  case Nil
  then show ?case by simp
next
  case (Cons now later)
  let ?rl' = "snd (IsAllowed rl ip now)"
  have kept: "filter (\<lambda>t. now - window rl < t) (requestsOf rl ip) = requestsOf rl ip"
    using Cons.prems(2) by (auto simp: filter_id_conv)
  have lt: "int (length (requestsOf rl ip)) < maxReqs rl"
    using Cons.prems(1) by simp
  have r': "requestsOf ?rl' ip = requestsOf rl ip @ [now]"
    using lt by (simp add: requestsOf_IsAllowed_same kept)
  have a: "int (length (requestsOf ?rl' ip)) + int (length later) \<le> maxReqs ?rl'"
    using Cons.prems(1) by (simp add: r' IsAllowed_keeps_config)
  have b: "\<forall>x \<in> set (requestsOf ?rl' ip) \<union> set later. \<forall>y \<in> set later. y - window ?rl' < x"
    using Cons.prems(2) by (auto simp: r' IsAllowed_keeps_config)
  from Cons.IH[OF a b] show ?case
    by (simp add: allowedSeq_Cons r' IsAllowed_keeps_config del: allowedSeq.simps)
qed

lemma allowedSeq_recorded_subset:
  "set (requestsOf (snd (allowedSeq rl ip ts)) ip) \<subseteq> set (requestsOf rl ip) \<union> set ts
   \<and> maxReqs (snd (allowedSeq rl ip ts)) = maxReqs rl
   \<and> window (snd (allowedSeq rl ip ts)) = window rl"
proof (induction ts arbitrary: rl)
  case Nil
  then show ?case by simp
next
  case (Cons now later)
  let ?rl' = "snd (IsAllowed rl ip now)"
  have "set (requestsOf ?rl' ip) \<subseteq> set (requestsOf rl ip) \<union> {now}"
    by (auto simp: requestsOf_IsAllowed_same Let_def)
  with Cons.IH[of ?rl'] show ?case
    by (auto simp add: allowedSeq_Cons IsAllowed_keeps_config simp del: allowedSeq.simps)
qed

text \<open>
  Claim C3, as the code has it. A call of \<^verbatim>\<open>IsAllowed\<close> keeps the recorded instants
  of the identity that lie strictly after \<open>now - window\<close> (an instant exactly \<open>window\<close>
  old goes, with the older ones); when at least \<open>maxReqs\<close> remain it answers false and
  stores the kept instants without the new one, otherwise it stores them with \<open>now\<close>
  appended and answers true. From an identity with nothing recorded and \<open>maxReqs = N\<close>:
  \<open>N\<close> calls all answer true, at whatever instants; when the clock does not run backwards and
  a further call comes less than \<open>window\<close> after each of them, it is refused; and once
  \<open>window\<close> or more has passed since every earlier call, a call is allowed again,
  provided that \<open>0 < maxReqs\<close>.
\<close>

theorem IsAllowed_sliding_window:
  "IsAllowed rl ip now =
     (let kept = filter (\<lambda>t. now - window rl < t) (requestsOf rl ip)
      in if maxReqs rl \<le> int (length kept)
         then (False, rl\<lparr>requests := (requests rl)(ip \<mapsto> kept)\<rparr>)
         else (True, rl\<lparr>requests := (requests rl)(ip \<mapsto> kept @ [now])\<rparr>))
   \<and> (requestsOf rl ip = [] \<and> maxReqs rl = int (length ts) \<longrightarrow>
        fst (allowedSeq rl ip ts) = replicate (length ts) True)
   \<and> (requestsOf rl ip = [] \<and> maxReqs rl = int (length ts) \<and> sorted (ts @ [t'])
        \<and> (\<forall>t \<in> set ts. t' - t < window rl) \<longrightarrow>
        fst (IsAllowed (snd (allowedSeq rl ip ts)) ip t') = False)
   \<and> (requestsOf rl ip = [] \<and> 0 < maxReqs rl \<and> (\<forall>t \<in> set ts. t + window rl \<le> now) \<longrightarrow>
        fst (IsAllowed (snd (allowedSeq rl ip ts)) ip now) = True)"
proof (intro conjI impI)
  show "IsAllowed rl ip now =
     (let kept = filter (\<lambda>t. now - window rl < t) (requestsOf rl ip)
      in if maxReqs rl \<le> int (length kept)
         then (False, rl\<lparr>requests := (requests rl)(ip \<mapsto> kept)\<rparr>)
         else (True, rl\<lparr>requests := (requests rl)(ip \<mapsto> kept @ [now])\<rparr>))"
    by (simp add: IsAllowed_def Let_def validRequestsOf_filter Add_def)
next
  assume "requestsOf rl ip = [] \<and> maxReqs rl = int (length ts)"
  then show "fst (allowedSeq rl ip ts) = replicate (length ts) True"
    by (intro allowedSeq_under_limit) simp
next
  assume a: "requestsOf rl ip = [] \<and> maxReqs rl = int (length ts) \<and> sorted (ts @ [t'])
        \<and> (\<forall>t \<in> set ts. t' - t < window rl)"
  then have le: "\<forall>y \<in> set ts. y \<le> t'"
    by (simp add: sorted_append)
  have within: "\<forall>x \<in> set (requestsOf rl ip) \<union> set ts. \<forall>y \<in> set ts. y - window rl < x"
  proof (intro ballI)
    fix x y assume "x \<in> set (requestsOf rl ip) \<union> set ts" "y \<in> set ts"
    with a le have "t' - x < window rl" "y \<le> t'" by auto
    then show "y - window rl < x" by linarith
  qed
  have bound: "int (length (requestsOf rl ip)) + int (length ts) \<le> maxReqs rl"
    using a by simp
  let ?rl' = "snd (allowedSeq rl ip ts)"
  from allowedSeq_all_recorded[OF bound within] a
  have rec: "requestsOf ?rl' ip = ts" "maxReqs ?rl' = int (length ts)" "window ?rl' = window rl"
    by simp_all
  have "filter (\<lambda>t. t' - window rl < t) ts = ts"
    using a by (auto simp: filter_id_conv)
  then show "fst (IsAllowed ?rl' ip t') = False"
    by (simp add: fst_IsAllowed rec)
next
  assume a: "requestsOf rl ip = [] \<and> 0 < maxReqs rl \<and> (\<forall>t \<in> set ts. t + window rl \<le> now)"
  let ?rl' = "snd (allowedSeq rl ip ts)"
  from allowedSeq_recorded_subset[of rl ip ts] a
  have sub: "set (requestsOf ?rl' ip) \<subseteq> set ts" and cfg: "maxReqs ?rl' = maxReqs rl"
    "window ?rl' = window rl"
    by simp_all
  have "filter (\<lambda>t. now - window rl < t) (requestsOf ?rl' ip) = []"
    using sub a by (fastforce simp: filter_empty_conv)
  then show "fst (IsAllowed ?rl' ip now) = True"
    using a by (simp add: fst_IsAllowed cfg)
qed

text \<open>Two calls at 0 and 1 under a limit of two in ten; a third at 5, another at 11.\<close>

theorem IsAllowed_sliding_window_witness:
  "requestsOf (NewRateLimiter 2 10) ''a'' = []
   \<and> maxReqs (NewRateLimiter 2 10) = int (length [0, 1 :: int])
   \<and> sorted ([0, 1] @ [5 :: int])
   \<and> (5::int) - 0 < window (NewRateLimiter 2 10) \<and> (5::int) - 1 < window (NewRateLimiter 2 10)
   \<and> (0::int) + window (NewRateLimiter 2 10) \<le> 11 \<and> (1::int) + window (NewRateLimiter 2 10) \<le> 11
   \<and> fst (allowedSeq (NewRateLimiter 2 10) ''a'' [0, 1]) = [True, True]
   \<and> fst (IsAllowed (snd (allowedSeq (NewRateLimiter 2 10) ''a'' [0, 1])) ''a'' 5) = False
   \<and> fst (IsAllowed (snd (allowedSeq (NewRateLimiter 2 10) ''a'' [0, 1])) ''a'' 11) = True"
  using IsAllowed_sliding_window [of "NewRateLimiter 2 10" "''a''" 11 "[0, 1]" 5]
  by (simp add: NewRateLimiter_def requestsOf_def)

text \<open>
  Claim C3 as stated fails at the edge of the window and at the limit zero. With one
  request in ten allowed, the instant 0 is not older than \<open>10 - 10\<close>, so at 10 the claim
  has it remain and the call refused; the code allows the call. With the limit 0 no
  call is ever allowed, however long after the earlier ones.
\<close>

theorem IsAllowed_boundary_counterexample:
  "fst (allowedSeq (NewRateLimiter 1 10) ''a'' [0, 10]) = [True, True]
   \<and> fst (allowedSeq (NewRateLimiter 0 10) ''a'' [0, 100]) = [False, False]"
  by (simp add: NewRateLimiter_def IsAllowed_def requestsOf_def Let_def Add_def After_def)

lemma applyOp_maxReqs: "maxReqs (applyOp rl op) = maxReqs rl"
  by (cases op) (simp_all add: IsAllowed_def GetRequestCount_def cleanupTick_def Let_def)

lemma applyOp_bounded:
  assumes "0 \<le> maxReqs rl"
    and "\<forall>ip ts. requests rl ip = Some ts \<longrightarrow> int (length ts) \<le> maxReqs rl"
  shows "\<forall>ip ts. requests (applyOp rl op) ip = Some ts \<longrightarrow> int (length ts) \<le> maxReqs rl"
proof (cases op)
  case (OpIsAllowed who now)
  let ?kept = "filter (\<lambda>t. now - window rl < t) (requestsOf rl who)"
  have "int (length (requestsOf rl who)) \<le> maxReqs rl"
    using assms by (simp add: requestsOf_def split: option.split)
  moreover have "int (length ?kept) \<le> int (length (requestsOf rl who))"
    by simp
  ultimately have "int (length ?kept) \<le> maxReqs rl"
    by linarith
  then show ?thesis
    using assms(2) OpIsAllowed
    by (auto simp: IsAllowed_def Let_def validRequestsOf_filter Add_def)
next
  case (OpGetRequestCount who now)
  then show ?thesis
    using assms(2) by (simp add: GetRequestCount_def Let_def)
next
  case (OpCleanupTick now)
  show ?thesis
  proof (intro allI impI)
    fix ip ts
    assume "requests (applyOp rl op) ip = Some ts"
    then obtain reqs where r: "requests rl ip = Some reqs"
      and ts: "ts = filter (\<lambda>t. now - window rl < t) reqs"
      using OpCleanupTick
      by (auto simp: cleanupTick_def Let_def validRequestsOf_filter Add_def
               split: option.splits if_splits)
    have "int (length ts) \<le> int (length reqs)"
      unfolding ts by simp
    moreover have "int (length reqs) \<le> maxReqs rl"
      using assms(2) r by blast
    ultimately show "int (length ts) \<le> maxReqs rl"
      by linarith
  qed
qed

lemma runOps_bounded:
  "0 \<le> maxReqs rl \<Longrightarrow>
   \<forall>ip ts. requests rl ip = Some ts \<longrightarrow> int (length ts) \<le> maxReqs rl \<Longrightarrow>
   (\<forall>ip ts. requests (runOps rl ops) ip = Some ts \<longrightarrow> int (length ts) \<le> maxReqs rl)"
proof (induction ops arbitrary: rl)
  case Nil
  then show ?case by simp
next
  case (Cons op ops)
  have "0 \<le> maxReqs (applyOp rl op)"
    using Cons.prems(1) by (simp add: applyOp_maxReqs)
  moreover have "\<forall>ip ts. requests (applyOp rl op) ip = Some ts
                   \<longrightarrow> int (length ts) \<le> maxReqs (applyOp rl op)"
    using applyOp_bounded[OF Cons.prems] by (simp add: applyOp_maxReqs)
  ultimately show ?case
    using Cons.IH[of "applyOp rl op"] by (simp add: applyOp_maxReqs)
qed

text \<open>
  Claim C9, as the code has it. Starting from \<^verbatim>\<open>NewRateLimiter\<close> with a limit that is
  not negative, after every sequence of \<^verbatim>\<open>IsAllowed\<close>, \<^verbatim>\<open>GetRequestCount\<close> and
  cleanup ticks, with any identities and any clock readings, every stored list has at most
  \<open>maxReqs\<close> instants; and \<^verbatim>\<open>GetRequestCount\<close> leaves the limiter as it found it.
\<close>

theorem limiter_windows_bounded:
  "(0 \<le> N \<and> requests (runOps (NewRateLimiter N W) ops) ip = Some ts \<longrightarrow> int (length ts) \<le> N)
   \<and> snd (GetRequestCount rl ip now) = rl
   \<and> applyOp rl (OpGetRequestCount ip now) = rl"
proof (intro conjI impI)
  assume a: "0 \<le> N \<and> requests (runOps (NewRateLimiter N W) ops) ip = Some ts"
  have "\<forall>ip ts. requests (runOps (NewRateLimiter N W) ops) ip = Some ts
          \<longrightarrow> int (length ts) \<le> maxReqs (NewRateLimiter N W)"
    using a by (intro runOps_bounded) (simp_all add: NewRateLimiter_def)
  moreover have "maxReqs (NewRateLimiter N W) = N"
    by (simp add: NewRateLimiter_def)
  ultimately show "int (length ts) \<le> N"
    using a by auto
qed (simp_all add: GetRequestCount_def Let_def)

text \<open>A history with each of the three operations, under a limit of one.\<close>

theorem limiter_windows_bounded_witness:
  "(0::int) \<le> 1
   \<and> requests (runOps (NewRateLimiter 1 10)
        [OpIsAllowed ''a'' 0, OpGetRequestCount ''a'' 1, OpIsAllowed ''a'' 2, OpCleanupTick 3])
        ''a'' = Some [0]
   \<and> int (length [0 :: int]) \<le> 1"
  using limiter_windows_bounded [of 1 10
      "[OpIsAllowed ''a'' 0, OpGetRequestCount ''a'' 1, OpIsAllowed ''a'' 2, OpCleanupTick 3]"
      "''a''" "[0]"]
  by (simp add: NewRateLimiter_def IsAllowed_def GetRequestCount_def cleanupTick_def
        requestsOf_def Let_def Add_def After_def)

text \<open>
  Claim C9 as stated fails for a negative limit, which \<^verbatim>\<open>config.Load\<close> accepts
  (\<^verbatim>\<open>RATE_LIMIT_REQUESTS=-1\<close>): the first call is refused and stores the empty list,
  whose length 0 is more than \<open>-1\<close>.
\<close>

theorem limiter_negative_limit_counterexample:
  "requests (runOps (NewRateLimiter (- 1) 10) [OpIsAllowed ''a'' 0]) ''a'' = Some []
   \<and> \<not> int (length ([] :: time list)) \<le> - 1"
  by (simp add: NewRateLimiter_def IsAllowed_def requestsOf_def Let_def Add_def)

section \<open>Properties of the tokens\<close>

lemma splitToken_loop_no_dot:
  "CHR ''.'' \<notin> set xs \<Longrightarrow> splitToken_loop xs parts current = (parts, current @ xs)"
  by (induction xs arbitrary: current) auto

lemma splitToken_loop_append:
  "splitToken_loop (xs @ ys) parts current =
     splitToken_loop ys (fst (splitToken_loop xs parts current))
       (snd (splitToken_loop xs parts current))"
  by (induction xs arbitrary: parts current) simp_all

lemma splitToken_two_parts:
  assumes "CHR ''.'' \<notin> set a" "CHR ''.'' \<notin> set b" "b \<noteq> []"
  shows "splitToken (a @ ''.'' @ b) = [a, b]"
proof -
  have "splitToken_loop (a @ ''.'' @ b) [] [] = ([a], b)"
    using assms by (simp add: splitToken_loop_append splitToken_loop_no_dot)
  then show ?thesis
    using assms(3) by (simp add: splitToken_def)
qed

lemma splitToken_loop_parts:
  "length (fst (splitToken_loop t parts current)) = length parts + count_list t CHR ''.''"
  by (induction t arbitrary: parts current) simp_all

lemma splitToken_loop_current:
  "snd (splitToken_loop t parts current) = [] \<longleftrightarrow>
     (if t = [] then current = [] else last t = CHR ''.'')"
  by (induction t arbitrary: parts current) auto

lemma length_splitToken:
  "length (splitToken t) =
     count_list t CHR ''.'' + (if t = [] \<or> last t = CHR ''.'' then 0 else 1)"
proof -
  obtain p c where pc: "splitToken_loop t [] [] = (p, c)"
    by (cases "splitToken_loop t [] []")
  have "length p = count_list t CHR ''.''"
    using splitToken_loop_parts[of t "[]" "[]"] pc by simp
  moreover have "c = [] \<longleftrightarrow> (t = [] \<or> last t = CHR ''.'')"
    using splitToken_loop_current[of t "[]" "[]"] pc by auto
  ultimately show ?thesis
    by (auto simp: splitToken_def pc)
qed

lemma splitToken_trailing_dot:
  assumes "t \<noteq> []" "last t \<noteq> CHR ''.''"
  shows "splitToken (t @ ''.'') = splitToken t"
proof -
  obtain p c where pc: "splitToken_loop t [] [] = (p, c)"
    by (cases "splitToken_loop t [] []")
  have "c \<noteq> []"
    using splitToken_loop_current[of t "[]" "[]"] pc assms by auto
  then show ?thesis
    by (simp add: splitToken_def splitToken_loop_append pc)
qed

lemma ValidateToken_bad_format:
  "length (splitToken token) \<noteq> 2 \<Longrightarrow> ValidateToken L now token key = Inl ErrInvalidTokenFormat"
  by (auto simp: ValidateToken_def split: list.splits)

text \<open>
  Claim C5, as the code has it. \<^verbatim>\<open>ValidateToken\<close> answers "invalid token format",
  whatever the key, the clock and the library, for every token that \<^verbatim>\<open>splitToken\<close> does
  not cut into exactly two parts. \<^verbatim>\<open>splitToken\<close> gives one part for each \<open>.\<close> and
  one more for a non-empty rest after the last \<open>.\<close>. So a token is refused for its format
  when it has no \<open>.\<close>, three or more, two of which the second is not its last
  character, or one that is its last character (no signature). A \<open>.\<close> put after a
  token that does not end in one changes nothing: the result is that of the token itself.
\<close>

theorem ValidateToken_format:
  "(length (splitToken token) \<noteq> 2 \<longrightarrow>
      ValidateToken L now token key = Inl ErrInvalidTokenFormat)
   \<and> length (splitToken token) =
       count_list token CHR ''.'' + (if token = [] \<or> last token = CHR ''.'' then 0 else 1)
   \<and> (count_list token CHR ''.'' = 0 \<or> 3 \<le> count_list token CHR ''.''
       \<or> (count_list token CHR ''.'' = 2 \<and> last token \<noteq> CHR ''.'')
       \<or> (count_list token CHR ''.'' = 1 \<and> last token = CHR ''.'') \<longrightarrow>
      ValidateToken L now token key = Inl ErrInvalidTokenFormat)
   \<and> (token \<noteq> [] \<and> last token \<noteq> CHR ''.'' \<longrightarrow>
      ValidateToken L now (token @ ''.'') key = ValidateToken L now token key)"
proof (intro conjI impI)
  assume "length (splitToken token) \<noteq> 2"
  then show "ValidateToken L now token key = Inl ErrInvalidTokenFormat"
    by (rule ValidateToken_bad_format)
next
  show "length (splitToken token) =
       count_list token CHR ''.'' + (if token = [] \<or> last token = CHR ''.'' then 0 else 1)"
    by (rule length_splitToken)
next
  assume "count_list token CHR ''.'' = 0 \<or> 3 \<le> count_list token CHR ''.''
       \<or> (count_list token CHR ''.'' = 2 \<and> last token \<noteq> CHR ''.'')
       \<or> (count_list token CHR ''.'' = 1 \<and> last token = CHR ''.'')"
  then have "length (splitToken token) \<noteq> 2"
    by (auto simp: length_splitToken)
  then show "ValidateToken L now token key = Inl ErrInvalidTokenFormat"
    by (rule ValidateToken_bad_format)
next
  assume "token \<noteq> [] \<and> last token \<noteq> CHR ''.''"
  then show "ValidateToken L now (token @ ''.'') key = ValidateToken L now token key"
    by (simp add: ValidateToken_def splitToken_trailing_dot)
qed

lemma hexDigits_table:
  "\<forall>n \<in> set [0..<16]. hexVal (hexOf n) = Some n \<and> hexOf n \<noteq> CHR ''.''"
  by code_simp

lemma hexVal_hexOf: "n < 16 \<Longrightarrow> hexVal (hexOf n) = Some n"
  using hexDigits_table by simp

lemma hexOf_no_dot: "n < 16 \<Longrightarrow> hexOf n \<noteq> CHR ''.''"
  using hexDigits_table by simp

lemma nibbles_less_16:
  "(of_char c :: nat) div 16 < 16" "(of_char c :: nat) mod 16 < 16"
proof -
  have "(of_char c :: nat) < 256" by simp
  then show "(of_char c :: nat) div 16 < 16" by arith
  show "(of_char c :: nat) mod 16 < 16" by simp
qed

lemma hexDecode_hexEncode: "hexDecode (hexEncode s) = Some s"
proof (induction s)
  case Nil
  then show ?case by simp
next
  case (Cons c cs)
  note lt = nibbles_less_16 [of c]
  have "16 * (of_char c div 16) + of_char c mod 16 = (of_char c :: nat)"
    by simp
  then show ?case
    using Cons.IH lt by (simp add: hexVal_hexOf)
qed

lemma hexEncode_no_dot: "CHR ''.'' \<notin> set (hexEncode s)"
proof (induction s)
  case Nil
  then show ?case by simp
next
  case (Cons c cs)
  note lt = nibbles_less_16 [of c]
  show ?case
    using Cons.IH hexOf_no_dot[OF lt(1)] hexOf_no_dot[OF lt(2)] by auto
qed

lemma hexEncode_nonempty: "s \<noteq> [] \<Longrightarrow> hexEncode s \<noteq> []"
  by (cases s) simp_all

lemma sample_Unmarshal_Marshal:
  "sample_Marshal c = Some j \<Longrightarrow> sample_Unmarshal j = Some c"
  by (auto simp: sample_Marshal_def split: if_splits)

lemma libraryLaws_sampleLib: "libraryLaws sampleLib"
  unfolding libraryLaws_def sampleLib_def
  by (simp add: hexDecode_hexEncode hexEncode_no_dot hexEncode_nonempty
        sample_Unmarshal_Marshal sample_hmac_def)

lemma ValidateToken_GenerateToken:
  assumes laws: "libraryLaws L"
    and gen: "GenerateToken L issuedAt maxAge key = Inr token"
  shows "ValidateToken L now token key =
           (if After now (Add issuedAt maxAge) then Inl ErrTokenExpired
            else Inr \<lparr>IssuedAt = issuedAt, ExpiresAt = Add issuedAt maxAge\<rparr>)"
proof -
  let ?claims = "\<lparr>IssuedAt = issuedAt, ExpiresAt = Add issuedAt maxAge\<rparr>"
  from gen obtain j where j: "json_Marshal L ?claims = Some j"
    by (auto simp: GenerateToken_def Let_def split: option.splits)
  let ?c = "base64_EncodeToString L j"
  let ?s = "base64_EncodeToString L (hmac_sha256 L key ?c)"
  from gen j have token: "token = ?c @ ''.'' @ ?s"
    by (simp add: GenerateToken_def Let_def)
  from laws have dots: "CHR ''.'' \<notin> set ?c" "CHR ''.'' \<notin> set ?s"
    and ne: "?s \<noteq> []"
    and dec: "base64_DecodeString L ?c = Some j"
    and unm: "json_Unmarshal L j = Some ?claims"
    using j by (simp_all add: libraryLaws_def)
  have "splitToken token = [?c, ?s]"
    unfolding token using dots ne by (rule splitToken_two_parts)
  then show ?thesis
    by (simp add: ValidateToken_def dec unm)
qed

text \<open>
  Claim C4, as the code has it. For a library that keeps its laws, a positive
  \<open>maxAge\<close> and any key, a token that \<^verbatim>\<open>GenerateToken\<close> issued at \<open>issuedAt\<close> is
  accepted under the same key at the instant of issue and at every instant up to and
  including \<open>issuedAt + maxAge\<close>, with the claims it was issued with; it is refused as
  expired exactly at the instants strictly after \<open>issuedAt + maxAge\<close>.
\<close>

theorem token_roundtrip_and_expiry:
  assumes "libraryLaws L" and "0 < maxAge"
    and "GenerateToken L issuedAt maxAge key = Inr token"
  shows "ValidateToken L issuedAt token key
           = Inr \<lparr>IssuedAt = issuedAt, ExpiresAt = issuedAt + maxAge\<rparr>
         \<and> (now \<le> issuedAt + maxAge \<longrightarrow>
              ValidateToken L now token key
                = Inr \<lparr>IssuedAt = issuedAt, ExpiresAt = issuedAt + maxAge\<rparr>)
         \<and> (issuedAt + maxAge < now \<longrightarrow>
              ValidateToken L now token key = Inl ErrTokenExpired)"
  using assms(2) ValidateToken_GenerateToken [OF assms(1) assms(3)]
  by (simp add: After_def Add_def)

text \<open>A token issued at 5 for 5 clock units, verified at 5, at 7 and at 11.\<close>

theorem token_roundtrip_and_expiry_witness:
  "libraryLaws sampleLib \<and> (0::int) < 5
   \<and> GenerateToken sampleLib 5 5 ''k'' = Inr ''050a.6d61633a6b3a30353061''
   \<and> ValidateToken sampleLib 5 ''050a.6d61633a6b3a30353061'' ''k''
        = Inr \<lparr>IssuedAt = 5, ExpiresAt = 10\<rparr>
   \<and> ValidateToken sampleLib 7 ''050a.6d61633a6b3a30353061'' ''k''
        = Inr \<lparr>IssuedAt = 5, ExpiresAt = 10\<rparr>
   \<and> ValidateToken sampleLib 11 ''050a.6d61633a6b3a30353061'' ''k'' = Inl ErrTokenExpired"
proof -
  have gen: "GenerateToken sampleLib 5 5 ''k'' = Inr ''050a.6d61633a6b3a30353061''"
    by code_simp
  have pos: "(0::int) < 5" by simp
  from token_roundtrip_and_expiry [OF libraryLaws_sampleLib pos gen, of 7]
    token_roundtrip_and_expiry [OF libraryLaws_sampleLib pos gen, of 11]
    libraryLaws_sampleLib gen
  show ?thesis by simp
qed

text \<open>
  Claim C4 as stated fails at the instant of expiry itself: the token issued at 5 for
  5 clock units is accepted at 10.
\<close>

theorem token_valid_at_expiry_counterexample:
  "GenerateToken sampleLib 5 5 ''k'' = Inr ''050a.6d61633a6b3a30353061''
   \<and> ValidateToken sampleLib 10 ''050a.6d61633a6b3a30353061'' ''k''
        = Inr \<lparr>IssuedAt = 5, ExpiresAt = 10\<rparr>
   \<and> (10::int) \<ge> 5 + 5"
  by code_simp

text \<open>
  Claim C5 as stated fails: the token issued at 5 for 5 clock units, with a \<open>.\<close> added
  at its end, has two separators and is accepted.
\<close>

theorem ValidateToken_trailing_dot_counterexample:
  "count_list ''050a.6d61633a6b3a30353061.'' CHR ''.'' = 2
   \<and> ValidateToken sampleLib 5 ''050a.6d61633a6b3a30353061.'' ''k''
       = Inr \<lparr>IssuedAt = 5, ExpiresAt = 10\<rparr>"
  by code_simp

text \<open>Tokens with no separator, with three, and the effect of a separator at the end.\<close>

theorem ValidateToken_format_witness:
  "length (splitToken ''abc'') \<noteq> 2
   \<and> count_list ''abc'' CHR ''.'' = 0
   \<and> ''abc'' \<noteq> [] \<and> last ''abc'' \<noteq> CHR ''.''
   \<and> ValidateToken sampleLib 0 ''abc'' ''k'' = Inl ErrInvalidTokenFormat
   \<and> ValidateToken sampleLib 0 ''abc.'' ''k'' = ValidateToken sampleLib 0 ''abc'' ''k''
   \<and> count_list ''a.b.c.d'' CHR ''.'' = 3
   \<and> ValidateToken sampleLib 0 ''a.b.c.d'' ''k'' = Inl ErrInvalidTokenFormat"
proof -
  have h1: "length (splitToken ''abc'') \<noteq> 2" by code_simp
  have h2: "count_list ''abc'' CHR ''.'' = 0" by code_simp
  have h3: "''abc'' \<noteq> [] \<and> last ''abc'' \<noteq> CHR ''.''" by simp
  have h4: "count_list ''a.b.c.d'' CHR ''.'' = 3" by code_simp
  have c1: "ValidateToken sampleLib 0 ''abc'' ''k'' = Inl ErrInvalidTokenFormat"
    using ValidateToken_format [of "''abc''" sampleLib 0 "''k''"] h1 by blast
  have c2: "ValidateToken sampleLib 0 (''abc'' @ ''.'') ''k''
              = ValidateToken sampleLib 0 ''abc'' ''k''"
    using ValidateToken_format [of "''abc''" sampleLib 0 "''k''"] h3 by blast
  have c3: "ValidateToken sampleLib 0 ''a.b.c.d'' ''k'' = Inl ErrInvalidTokenFormat"
    using ValidateToken_format [of "''a.b.c.d''" sampleLib 0 "''k''"] h4 by simp
  from h1 h2 h3 h4 c1 c2 c3 show ?thesis by simp
qed

section \<open>Properties of the request handler\<close>

text \<open>
  Claim C8. For a request whose \<^verbatim>\<open>Host\<close> is not a key of the proxy manager's map,
  whatever its path, method and cookies, the handler answers 404 "Service Not Found"; the
  only calls it makes are that answer and the access log, so no token is looked at, no
  share path checked, the limiter neither asked nor changed, and nothing validated.
\<close>

theorem unknown_host_not_found:
  assumes "proxies (proxyManager h) (Host r) = None"
  shows "response (ServeHTTP L B clk h r) = HttpError ''Service Not Found'' 404
       \<and> events (ServeHTTP L B clk h r)
           = [Call_httpError ''Service Not Found'' 404,
              Call_LogAccess (getClientIP L r) (Method r) (Path r) 404]
       \<and> limiter (ServeHTTP L B clk h r) = rateLimiter h"
  using assms by (simp add: ServeHTTP_def GetProxy_def)

text \<open>
  Claim C1, as the code has it. On a configured hostname whose service type is supported
  and has \<^verbatim>\<open>FullAccessAfterKnock\<close>, a request that carries the cookie
  \<^verbatim>\<open>sneak-link-token\<close> with a value that \<^verbatim>\<open>ValidateToken\<close> accepts is proxied at
  once: the handler verifies the token, forwards the request and logs the access, and does
  nothing else; the limiter is neither asked nor changed, the path is not checked and the
  share is not validated.
\<close>

theorem valid_token_is_proxied:
  assumes "GetProxy (proxyManager h) (Host r) = Some sp"
    and "SupportedServices (Type (GetServiceConfig sp)) = Some st"
    and "FullAccessAfterKnock st"
    and "Cookies r ''sneak-link-token'' = Some v"
    and "ValidateToken L (nowValidateToken clk) v (SigningKey (config h)) = Inr claims"
  shows "response (ServeHTTP L B clk h r) = Proxied
       \<and> events (ServeHTTP L B clk h r)
           = [Call_ValidateToken v, Call_ProxyServeHTTP,
              Call_LogAccess (getClientIP L r) (Method r) (Path r) 200]
       \<and> limiter (ServeHTTP L B clk h r) = rateLimiter h"
  using assms by (simp add: ServeHTTP_def)

lemma serveUnauthenticated_limited:
  assumes "isSharePath (Path r) st"
    and "fst (IsAllowed (rateLimiter h) ip (nowIsAllowed clk)) = False"
  shows "response (serveUnauthenticated L B clk h r ip sp st evs)
           = HttpError ''Too Many Requests'' 429"
    and "events (serveUnauthenticated L B clk h r ip sp st evs)
           = evs @
             [Call_isSharePath (Path r), Call_IsAllowed ip, Call_GetRequestCount ip,
              Call_LogSecurity ''rate_limit_exceeded'' ip
                (RateLimitDetails
                   (fst (GetRequestCount (snd (IsAllowed (rateLimiter h) ip (nowIsAllowed clk)))
                           ip (nowGetRequestCount clk)))
                   (RateLimitWindow (config h))),
              Call_httpError ''Too Many Requests'' 429,
              Call_LogAccess ip (Method r) (Path r) 429]"
    and "limiter (serveUnauthenticated L B clk h r ip sp st evs)
           = snd (IsAllowed (rateLimiter h) ip (nowIsAllowed clk))"
  using assms
  by (simp_all add: serveUnauthenticated_def split_beta Let_def GetRequestCount_def)

lemma ServeHTTP_without_session:
  assumes "GetProxy (proxyManager h) (Host r) = Some sp"
    and "SupportedServices (Type (GetServiceConfig sp)) = Some st"
    and "\<not> FullAccessAfterKnock st \<or>
         (\<forall>v. Cookies r ''sneak-link-token'' = Some v \<longrightarrow>
           (\<exists>err. ValidateToken L (nowValidateToken clk) v (SigningKey (config h)) = Inl err))"
  shows "\<exists>evs. ServeHTTP L B clk h r
                 = serveUnauthenticated L B clk h r (getClientIP L r) sp st evs
           \<and> (evs = [] \<or>
               (\<exists>v err. evs = [Call_ValidateToken v,
                   Call_LogSecurity ''invalid_token'' (getClientIP L r) (ErrorDetails err)]))"
proof (cases "FullAccessAfterKnock st")
  case False
  with assms(1,2)
  have "ServeHTTP L B clk h r = serveUnauthenticated L B clk h r (getClientIP L r) sp st []"
    by (simp add: ServeHTTP_def)
  then show ?thesis by blast
next
  case True
  show ?thesis
  proof (cases "Cookies r ''sneak-link-token''")
    case None
    with True assms(1,2)
    have "ServeHTTP L B clk h r = serveUnauthenticated L B clk h r (getClientIP L r) sp st []"
      by (simp add: ServeHTTP_def)
    then show ?thesis by blast
  next
    case (Some v)
    with assms(3) True obtain err where
      "ValidateToken L (nowValidateToken clk) v (SigningKey (config h)) = Inl err"
      by blast
    with Some True assms(1,2)
    have "ServeHTTP L B clk h r = serveUnauthenticated L B clk h r (getClientIP L r) sp st
            [Call_ValidateToken v,
             Call_LogSecurity ''invalid_token'' (getClientIP L r) (ErrorDetails err)]"
      by (simp add: ServeHTTP_def Let_def)
    then show ?thesis by blast
  qed
qed

text \<open>
  Claim C2. For a request to a share path of a configured, supported service that carries
  no cookie or one that \<^verbatim>\<open>ValidateToken\<close> rejects: when \<^verbatim>\<open>IsAllowed\<close> answers
  false for the client identity, the handler answers 429 "Too Many Requests", and among its
  calls there is no \<^verbatim>\<open>ValidateShare\<close> and no forwarding of the request.
\<close>

theorem rate_limited_knock_not_validated:
  assumes "GetProxy (proxyManager h) (Host r) = Some sp"
    and "SupportedServices (Type (GetServiceConfig sp)) = Some st"
    and "isSharePath (Path r) st"
    and "\<forall>v. Cookies r ''sneak-link-token'' = Some v \<longrightarrow>
           (\<exists>err. ValidateToken L (nowValidateToken clk) v (SigningKey (config h)) = Inl err)"
    and "fst (IsAllowed (rateLimiter h) (getClientIP L r) (nowIsAllowed clk)) = False"
  shows "response (ServeHTTP L B clk h r) = HttpError ''Too Many Requests'' 429
       \<and> (\<forall>p. Call_ValidateShare p \<notin> set (events (ServeHTTP L B clk h r)))
       \<and> Call_ProxyServeHTTP \<notin> set (events (ServeHTTP L B clk h r))
       \<and> Call_IsAllowed (getClientIP L r) \<in> set (events (ServeHTTP L B clk h r))"
proof -
  note lim = serveUnauthenticated_limited [OF assms(3) assms(5)]
  from ServeHTTP_without_session [OF assms(1) assms(2), where L = L and clk = clk and B = B] assms(4)
  obtain evs where
    "ServeHTTP L B clk h r = serveUnauthenticated L B clk h r (getClientIP L r) sp st evs"
    "evs = [] \<or> (\<exists>v err. evs = [Call_ValidateToken v,
        Call_LogSecurity ''invalid_token'' (getClientIP L r) (ErrorDetails err)])"
    by blast
  then show ?thesis
    by (auto simp: lim)
qed

lemma handleShareKnock_single_request:
  assumes "ValidateShare B sp (Path r) = (True, status, None)"
    and "\<not> FullAccessAfterKnock st"
  shows "handleShareKnock L B clk h r ip sp st =
           (Proxied,
            [Call_ValidateShare (Path r),
             Call_LogValidation ip (Path r) True status,
             Call_LogSecurity ''access_granted'' ip
               (ShareDetails (Path r) (Type (GetServiceConfig sp))),
             Call_ProxyServeHTTP,
             Call_LogAccess ip (Method r) (Path r) 200])"
  using assms by (simp add: handleShareKnock_def Let_def)

lemma handleShareKnock_session:
  assumes "ValidateShare B sp (Path r) = (True, status, None)"
    and "FullAccessAfterKnock st"
    and "GenerateToken L (nowGenerateToken clk) (CookieMaxAge (config h))
           (SigningKey (config h)) = Inr token"
  shows "handleShareKnock L B clk h r ip sp st =
           (Proxied,
            [Call_ValidateShare (Path r),
             Call_LogValidation ip (Path r) True status,
             Call_GenerateToken,
             Call_SetCookie (sessionCookie h (GetServiceConfig sp) token),
             Call_LogSecurity ''access_granted'' ip
               (ShareDetails (Path r) (Type (GetServiceConfig sp))),
             Call_ProxyServeHTTP,
             Call_LogAccess ip (Method r) (Path r) 200])"
  using assms by (simp add: handleShareKnock_def Let_def)

lemma handleShareKnock_cookie_set:
  assumes "Call_SetCookie c \<in> set (snd (handleShareKnock L B clk h r ip sp st))"
  shows "FullAccessAfterKnock st \<and>
         (\<exists>status token.
            ValidateShare B sp (Path r) = (True, status, None)
            \<and> GenerateToken L (nowGenerateToken clk) (CookieMaxAge (config h))
                 (SigningKey (config h)) = Inr token
            \<and> c = sessionCookie h (GetServiceConfig sp) token)"
proof -
  obtain valid status err where vs: "ValidateShare B sp (Path r) = (valid, status, err)"
    by (cases "ValidateShare B sp (Path r)")
  show ?thesis
  proof (cases err)
    case (Some e)
    with assms vs show ?thesis
      by (simp add: handleShareKnock_def Let_def)
  next
    case None
    show ?thesis
    proof (cases "valid \<and> FullAccessAfterKnock st")
      case False
      with assms vs None show ?thesis
        by (auto simp: handleShareKnock_def Let_def split: if_splits)
    next
      case True
      show ?thesis
      proof (cases "GenerateToken L (nowGenerateToken clk) (CookieMaxAge (config h))
                      (SigningKey (config h))")
        case (Inl e)
        with assms vs None True show ?thesis
          by (simp add: handleShareKnock_def Let_def)
      next
        case (Inr token)
        with assms vs None True show ?thesis
          by (simp add: handleShareKnock_def Let_def)
      qed
    qed
  qed
qed

lemma handleShareKnock_no_token_without_grant:
  assumes "\<not> FullAccessAfterKnock st"
  shows "Call_GenerateToken \<notin> set (snd (handleShareKnock L B clk h r ip sp st))"
proof -
  obtain valid status err where vs: "ValidateShare B sp (Path r) = (valid, status, err)"
    by (cases "ValidateShare B sp (Path r)")
  with assms show ?thesis
    by (cases err) (auto simp: handleShareKnock_def Let_def)
qed

lemma serveUnauthenticated_events:
  "events (serveUnauthenticated L B clk h r ip sp st evs) =
     evs @
     (if isSharePath (Path r) st then
        (if fst (IsAllowed (rateLimiter h) ip (nowIsAllowed clk)) then
           [Call_isSharePath (Path r), Call_IsAllowed ip]
           @ snd (handleShareKnock L B clk h r ip sp st)
         else
           [Call_isSharePath (Path r), Call_IsAllowed ip, Call_GetRequestCount ip,
            Call_LogSecurity ''rate_limit_exceeded'' ip
              (RateLimitDetails
                 (fst (GetRequestCount (snd (IsAllowed (rateLimiter h) ip (nowIsAllowed clk)))
                         ip (nowGetRequestCount clk)))
                 (RateLimitWindow (config h))),
            Call_httpError ''Too Many Requests'' 429,
            Call_LogAccess ip (Method r) (Path r) 429])
      else [Call_isSharePath (Path r), Call_httpError ''Access Denied'' 403,
            Call_LogAccess ip (Method r) (Path r) 403])"
  by (simp add: serveUnauthenticated_def split_beta Let_def)

lemma serveUnauthenticated_response:
  "response (serveUnauthenticated L B clk h r ip sp st evs) =
     (if isSharePath (Path r) st then
        (if fst (IsAllowed (rateLimiter h) ip (nowIsAllowed clk)) then
           fst (handleShareKnock L B clk h r ip sp st)
         else HttpError ''Too Many Requests'' 429)
      else HttpError ''Access Denied'' 403)"
  by (simp add: serveUnauthenticated_def split_beta Let_def)

lemma ServeHTTP_with_session:
  assumes "GetProxy (proxyManager h) (Host r) = Some sp"
    and "SupportedServices (Type (GetServiceConfig sp)) = Some st"
    and "FullAccessAfterKnock st"
    and "Cookies r ''sneak-link-token'' = Some v"
    and "ValidateToken L (nowValidateToken clk) v (SigningKey (config h)) = Inr claims"
  shows "ServeHTTP L B clk h r =
           \<lparr>response = Proxied,
            events = [Call_ValidateToken v, Call_ProxyServeHTTP,
                      Call_LogAccess (getClientIP L r) (Method r) (Path r) 200],
            limiter = rateLimiter h\<rparr>"
  using assms by (simp add: ServeHTTP_def)

lemma ServeHTTP_no_session_service:
  assumes "GetProxy (proxyManager h) (Host r) = Some sp"
    and "SupportedServices (Type (GetServiceConfig sp)) = Some st"
    and "\<not> FullAccessAfterKnock st"
  shows "ServeHTTP L B clk h r = serveUnauthenticated L B clk h r (getClientIP L r) sp st []"
  using assms by (simp add: ServeHTTP_def)

lemma ServeHTTP_session_or_not:
  assumes "GetProxy (proxyManager h) (Host r) = Some sp"
    and "SupportedServices (Type (GetServiceConfig sp)) = Some st"
  shows "(FullAccessAfterKnock st \<and>
          (\<exists>v. events (ServeHTTP L B clk h r)
                 = [Call_ValidateToken v, Call_ProxyServeHTTP,
                    Call_LogAccess (getClientIP L r) (Method r) (Path r) 200]))
         \<or> (\<exists>evs. ServeHTTP L B clk h r
                 = serveUnauthenticated L B clk h r (getClientIP L r) sp st evs
              \<and> (evs = [] \<or>
                  (\<exists>v err. evs = [Call_ValidateToken v,
                     Call_LogSecurity ''invalid_token'' (getClientIP L r) (ErrorDetails err)])))"
proof (cases "\<not> FullAccessAfterKnock st \<or>
         (\<forall>v. Cookies r ''sneak-link-token'' = Some v \<longrightarrow>
           (\<exists>err. ValidateToken L (nowValidateToken clk) v (SigningKey (config h)) = Inl err))")
  case True
  from ServeHTTP_without_session [OF assms True] show ?thesis by blast
next
  case False
  then obtain v where full: "FullAccessAfterKnock st"
    and v: "Cookies r ''sneak-link-token'' = Some v"
    and ok: "\<not> (\<exists>err. ValidateToken L (nowValidateToken clk) v (SigningKey (config h)) = Inl err)"
    by blast
  from ok obtain claims where
    "ValidateToken L (nowValidateToken clk) v (SigningKey (config h)) = Inr claims"
    by (cases "ValidateToken L (nowValidateToken clk) v (SigningKey (config h))") auto
  from ServeHTTP_with_session [OF assms full v this] full show ?thesis
    by simp
qed

text \<open>
  Claim C6. For a request on a configured, supported service: when the service has no
  \<^verbatim>\<open>FullAccessAfterKnock\<close>, no request sets a cookie or generates a token, and a knock
  on a share path that the limiter allows and the backend confirms is proxied, with exactly
  the calls listed. Whenever a cookie is set, the service has \<^verbatim>\<open>FullAccessAfterKnock\<close>,
  the cookie carries the token that \<^verbatim>\<open>GenerateToken\<close> has just returned, its domain
  is the \<^verbatim>\<open>Domain\<close> of the service's configuration, and it is set before the request
  is forwarded.
\<close>

theorem session_cookie_only_when_granted:
  assumes "GetProxy (proxyManager h) (Host r) = Some sp"
    and "SupportedServices (Type (GetServiceConfig sp)) = Some st"
  shows "(\<not> FullAccessAfterKnock st \<longrightarrow>
            (\<forall>c. Call_SetCookie c \<notin> set (events (ServeHTTP L B clk h r)))
            \<and> Call_GenerateToken \<notin> set (events (ServeHTTP L B clk h r)))
       \<and> (\<not> FullAccessAfterKnock st \<and> isSharePath (Path r) st
            \<and> fst (IsAllowed (rateLimiter h) (getClientIP L r) (nowIsAllowed clk))
            \<and> ValidateShare B sp (Path r) = (True, status, None) \<longrightarrow>
            response (ServeHTTP L B clk h r) = Proxied
            \<and> events (ServeHTTP L B clk h r) =
                [Call_isSharePath (Path r), Call_IsAllowed (getClientIP L r),
                 Call_ValidateShare (Path r),
                 Call_LogValidation (getClientIP L r) (Path r) True status,
                 Call_LogSecurity ''access_granted'' (getClientIP L r)
                   (ShareDetails (Path r) (Type (GetServiceConfig sp))),
                 Call_ProxyServeHTTP,
                 Call_LogAccess (getClientIP L r) (Method r) (Path r) 200])
       \<and> (Call_SetCookie c \<in> set (events (ServeHTTP L B clk h r)) \<longrightarrow>
            FullAccessAfterKnock st
            \<and> (\<exists>token pre post.
                  GenerateToken L (nowGenerateToken clk) (CookieMaxAge (config h))
                    (SigningKey (config h)) = Inr token
                  \<and> cookieValue c = token
                  \<and> cookieDomain c = Domain' (GetServiceConfig sp)
                  \<and> events (ServeHTTP L B clk h r)
                      = pre @ Call_GenerateToken # Call_SetCookie c # post
                  \<and> Call_ProxyServeHTTP \<notin> set pre
                  \<and> Call_ProxyServeHTTP \<in> set post))"
proof (intro conjI impI)
  let ?ip = "getClientIP L r"
  assume no: "\<not> FullAccessAfterKnock st"
  note eq = ServeHTTP_no_session_service [OF assms no, of L B clk]
  have "\<forall>c. Call_SetCookie c \<notin> set (snd (handleShareKnock L B clk h r ?ip sp st))"
    using handleShareKnock_cookie_set [of _ L B clk h r ?ip sp st] no by blast
  then show "\<forall>c. Call_SetCookie c \<notin> set (events (ServeHTTP L B clk h r))"
    by (simp add: eq serveUnauthenticated_events)
  show "Call_GenerateToken \<notin> set (events (ServeHTTP L B clk h r))"
    using handleShareKnock_no_token_without_grant [OF no, of L B clk h r ?ip sp]
    by (simp add: eq serveUnauthenticated_events)
next
  let ?ip = "getClientIP L r"
  assume a: "\<not> FullAccessAfterKnock st \<and> isSharePath (Path r) st
            \<and> fst (IsAllowed (rateLimiter h) (getClientIP L r) (nowIsAllowed clk))
            \<and> ValidateShare B sp (Path r) = (True, status, None)"
  then have no: "\<not> FullAccessAfterKnock st" by simp
  note eq = ServeHTTP_no_session_service [OF assms no, of L B clk]
  from a have knock: "handleShareKnock L B clk h r ?ip sp st =
           (Proxied,
            [Call_ValidateShare (Path r),
             Call_LogValidation ?ip (Path r) True status,
             Call_LogSecurity ''access_granted'' ?ip
               (ShareDetails (Path r) (Type (GetServiceConfig sp))),
             Call_ProxyServeHTTP,
             Call_LogAccess ?ip (Method r) (Path r) 200])"
    by (intro handleShareKnock_single_request) simp_all
  show "response (ServeHTTP L B clk h r) = Proxied"
    using a by (simp add: eq serveUnauthenticated_response knock)
  show "events (ServeHTTP L B clk h r) =
                [Call_isSharePath (Path r), Call_IsAllowed (getClientIP L r),
                 Call_ValidateShare (Path r),
                 Call_LogValidation (getClientIP L r) (Path r) True status,
                 Call_LogSecurity ''access_granted'' (getClientIP L r)
                   (ShareDetails (Path r) (Type (GetServiceConfig sp))),
                 Call_ProxyServeHTTP,
                 Call_LogAccess (getClientIP L r) (Method r) (Path r) 200]"
    using a by (simp add: eq serveUnauthenticated_events knock)
next
  let ?ip = "getClientIP L r"
  let ?knock = "handleShareKnock L B clk h r ?ip sp st"
  assume c: "Call_SetCookie c \<in> set (events (ServeHTTP L B clk h r))"
  from ServeHTTP_session_or_not [OF assms, of L B clk] c
  obtain evs where eq: "ServeHTTP L B clk h r = serveUnauthenticated L B clk h r ?ip sp st evs"
    and evs: "evs = [] \<or> (\<exists>v err. evs = [Call_ValidateToken v,
                     Call_LogSecurity ''invalid_token'' ?ip (ErrorDetails err)])"
    by auto
  from c evs have share: "isSharePath (Path r) st"
    and allowed: "fst (IsAllowed (rateLimiter h) ?ip (nowIsAllowed clk))"
    and inknock: "Call_SetCookie c \<in> set (snd ?knock)"
    by (auto simp: eq serveUnauthenticated_events split: if_splits)
  from handleShareKnock_cookie_set [OF inknock]
  obtain status' token where full: "FullAccessAfterKnock st"
    and valid: "ValidateShare B sp (Path r) = (True, status', None)"
    and gen: "GenerateToken L (nowGenerateToken clk) (CookieMaxAge (config h))
                 (SigningKey (config h)) = Inr token"
    and cookie: "c = sessionCookie h (GetServiceConfig sp) token"
    by blast
  note knock = handleShareKnock_session [OF valid full gen]
  let ?pre = "evs @ [Call_isSharePath (Path r), Call_IsAllowed ?ip,
                     Call_ValidateShare (Path r),
                     Call_LogValidation ?ip (Path r) True status']"
  let ?post = "[Call_LogSecurity ''access_granted'' ?ip
                  (ShareDetails (Path r) (Type (GetServiceConfig sp))),
                Call_ProxyServeHTTP,
                Call_LogAccess ?ip (Method r) (Path r) 200]"
  have "events (ServeHTTP L B clk h r) = ?pre @ Call_GenerateToken # Call_SetCookie c # ?post"
    using share allowed by (simp add: eq serveUnauthenticated_events knock cookie)
  moreover have "Call_ProxyServeHTTP \<notin> set ?pre"
    using evs by auto
  moreover have "Call_ProxyServeHTTP \<in> set ?post"
    by simp
  moreover have "cookieValue c = token" "cookieDomain c = Domain' (GetServiceConfig sp)"
    by (simp_all add: cookie sessionCookie_def)
  ultimately show "\<exists>token pre post.
                  GenerateToken L (nowGenerateToken clk) (CookieMaxAge (config h))
                    (SigningKey (config h)) = Inr token
                  \<and> cookieValue c = token
                  \<and> cookieDomain c = Domain' (GetServiceConfig sp)
                  \<and> events (ServeHTTP L B clk h r)
                      = pre @ Call_GenerateToken # Call_SetCookie c # post
                  \<and> Call_ProxyServeHTTP \<notin> set pre
                  \<and> Call_ProxyServeHTTP \<in> set post"
    using gen by blast
  show "FullAccessAfterKnock st" by (rule full)
qed

section \<open>Properties of the string functions\<close>

lemma HasPrefix_append: "HasPrefix (pre @ rest) pre"
  by (simp add: HasPrefix_def)

lemma HasPrefix_iff: "HasPrefix s pre \<longleftrightarrow> (\<exists>rest. s = pre @ rest)"
proof
  assume "HasPrefix s pre"
  then have "s = pre @ drop (length pre) s"
    by (metis HasPrefix_def append_take_drop_id)
  then show "\<exists>rest. s = pre @ rest" ..
next
  assume "\<exists>rest. s = pre @ rest"
  then show "HasPrefix s pre"
    by (auto simp: HasPrefix_def)
qed

lemma Index_eq:
  "Index s sep = (if sep \<in> set s then int (length (takeWhile (\<lambda>c. c \<noteq> sep) s)) else - 1)"
  by (induction s) (auto simp: Let_def)

lemma cut_at_Index:
  "(let idx = Index s sep in if idx \<noteq> - 1 then take (nat idx) s else s)
     = takeWhile (\<lambda>c. c \<noteq> sep) s"
proof (cases "sep \<in> set s")
  case True
  then show ?thesis
    by (simp add: Index_eq Let_def takeWhile_eq_take [symmetric])
next
  case False
  then have tw: "takeWhile (\<lambda>c. c \<noteq> sep) s = s"
    by (induction s) auto
  show ?thesis
    unfolding tw using False by (simp add: Index_eq)
qed

lemma takeWhile_twice:
  "takeWhile P (takeWhile Q s) = takeWhile (\<lambda>c. Q c \<and> P c) s"
  by (induction s) simp_all

lemma extractShareKey_eq:
  "extractShareKey sharePath pre =
     (if HasPrefix sharePath pre
      then takeWhile (\<lambda>c. c \<noteq> CHR ''/'' \<and> c \<noteq> CHR ''?'') (drop (length pre) sharePath)
      else [])"
proof (cases "HasPrefix sharePath pre")
  case False
  then show ?thesis by (simp add: extractShareKey_def)
next
  case True
  let ?key = "drop (length pre) sharePath"
  let ?key1 = "let idx = Index ?key CHR ''/'' in if idx \<noteq> - 1 then take (nat idx) ?key else ?key"
  have "extractShareKey sharePath pre =
          (let idx = Index ?key1 CHR ''?'' in if idx \<noteq> - 1 then take (nat idx) ?key1 else ?key1)"
    using True by (simp add: extractShareKey_def TrimPrefix_def Let_def)
  also have "\<dots> = takeWhile (\<lambda>c. c \<noteq> CHR ''?'') ?key1"
    by (rule cut_at_Index)
  also have "?key1 = takeWhile (\<lambda>c. c \<noteq> CHR ''/'') ?key"
    by (rule cut_at_Index)
  finally show ?thesis
    using True by (simp add: takeWhile_twice)
qed

text \<open>
  Claim C7. \<^verbatim>\<open>extractShareKey\<close> on a path that starts with the prefix gives what follows
  the prefix up to the first \<open>/\<close> or \<open>?\<close>, and the empty key on a path that does not
  start with the prefix; with the prefix \<open>/share/\<close> the three paths of the claim all
  give \<open>XyZ789\<close>.
\<close>

theorem extractShareKey_truncates:
  "extractShareKey (pre @ rest) pre = takeWhile (\<lambda>c. c \<noteq> CHR ''/'' \<and> c \<noteq> CHR ''?'') rest
   \<and> (\<not> (\<exists>rest. sharePath = pre @ rest) \<longrightarrow> extractShareKey sharePath pre = [])
   \<and> extractShareKey ''/share/XyZ789'' ''/share/'' = ''XyZ789''
   \<and> extractShareKey ''/share/XyZ789/'' ''/share/'' = ''XyZ789''
   \<and> extractShareKey ''/share/XyZ789?x=1'' ''/share/'' = ''XyZ789''"
proof (intro conjI impI)
  show "extractShareKey (pre @ rest) pre
          = takeWhile (\<lambda>c. c \<noteq> CHR ''/'' \<and> c \<noteq> CHR ''?'') rest"
    by (simp add: extractShareKey_eq HasPrefix_append)
next
  assume "\<not> (\<exists>rest. sharePath = pre @ rest)"
  then show "extractShareKey sharePath pre = []"
    by (simp add: extractShareKey_eq HasPrefix_iff)
next
  show "extractShareKey ''/share/XyZ789'' ''/share/'' = ''XyZ789''"
    by (simp add: extractShareKey_eq HasPrefix_def)
  show "extractShareKey ''/share/XyZ789/'' ''/share/'' = ''XyZ789''"
    by (simp add: extractShareKey_eq HasPrefix_def)
  show "extractShareKey ''/share/XyZ789?x=1'' ''/share/'' = ''XyZ789''"
    by (simp add: extractShareKey_eq HasPrefix_def)
qed

text \<open>A path with another prefix, and one with both a further segment and a query.\<close>

theorem extractShareKey_truncates_witness:
  "\<not> (\<exists>rest. ''/s/XyZ789'' = ''/share/'' @ rest)
   \<and> extractShareKey ''/s/XyZ789'' ''/share/'' = []
   \<and> extractShareKey (''/share/'' @ ''XyZ789/photos?x=1'') ''/share/'' = ''XyZ789''"
  using extractShareKey_truncates [of "''/share/''" "''XyZ789/photos?x=1''" "''/s/XyZ789''"]
  by simp

lemma Split_first: "\<exists>rest. Split s sep = takeWhile (\<lambda>c. c \<noteq> sep) s # rest"
  by (induction s) auto

lemma LastIndex_none: "sep \<notin> set s \<Longrightarrow> LastIndex s sep = - 1"
  by (induction s) (auto simp: Let_def)

lemma LastIndex_nonneg: "LastIndex s sep = - 1 \<or> 0 \<le> LastIndex s sep"
  by (induction s) (auto simp: Let_def)

lemma LastIndex_last:
  "sep \<notin> set port \<Longrightarrow> LastIndex (host @ sep # port) sep = int (length host)"
  by (induction host) (auto simp: Let_def LastIndex_none)

lemma Trim_surrounding:
  assumes "set l \<subseteq> set cutset" "set t \<subseteq> set cutset"
    and "a = [] \<or> (hd a \<notin> set cutset \<and> last a \<notin> set cutset)"
  shows "Trim (l @ a @ t) cutset = a"
proof (cases "a = []")
  case True
  have "\<forall>c \<in> set (l @ t). c \<in> set cutset"
    using assms(1,2) by auto
  then have dw: "dropWhile (\<lambda>c. c \<in> set cutset) (l @ t) = []"
    by (simp only: dropWhile_eq_Nil_conv)
  show ?thesis
    unfolding Trim_def True append_Nil dw by simp
next
  case False
  with assms(3) have h: "hd a \<notin> set cutset" and la: "last a \<notin> set cutset" by simp_all
  let ?P = "\<lambda>c. c \<in> set cutset"
  have "dropWhile ?P (l @ a @ t) = dropWhile ?P (a @ t)"
    using assms(1) by (intro dropWhile_append2) blast
  also have "\<dots> = a @ t"
    using False h by (cases a) simp_all
  finally have 1: "dropWhile ?P (l @ a @ t) = a @ t" .
  have "dropWhile ?P (rev t @ rev a) = dropWhile ?P (rev a)"
    using assms(2) by (intro dropWhile_append2) auto
  also have "\<dots> = rev a"
    using False la by (cases "rev a") (auto simp: last_rev hd_rev)
  finally show ?thesis
    by (simp add: Trim_def 1)
qed

lemma getClientIP_forwarded:
  "Header r ''X-Forwarded-For'' \<noteq> [] \<Longrightarrow>
   getClientIP L r
     = strings_TrimSpace L (takeWhile (\<lambda>c. c \<noteq> CHR '','') (Header r ''X-Forwarded-For''))"
proof -
  assume ne: "Header r ''X-Forwarded-For'' \<noteq> []"
  obtain rest where
    "Split (Header r ''X-Forwarded-For'') CHR '',''
       = takeWhile (\<lambda>c. c \<noteq> CHR '','') (Header r ''X-Forwarded-For'') # rest"
    using Split_first by blast
  with ne show ?thesis
    by (simp add: getClientIP_def Let_def)
qed

lemma getClientIP_real_ip:
  "Header r ''X-Forwarded-For'' = [] \<Longrightarrow> Header r ''X-Real-IP'' \<noteq> [] \<Longrightarrow>
   getClientIP L r = strings_TrimSpace L (Header r ''X-Real-IP'')"
  by (simp add: getClientIP_def Let_def)

lemma getClientIP_remote:
  "Header r ''X-Forwarded-For'' = [] \<Longrightarrow> Header r ''X-Real-IP'' = [] \<Longrightarrow>
   RemoteAddr r = host @ '':'' @ port \<Longrightarrow> CHR '':'' \<notin> set port \<Longrightarrow>
   getClientIP L r = Trim host ''[]''"
  by (simp add: getClientIP_def Let_def LastIndex_last)

lemma handleShareKnock_asks_no_limiter:
  "Call_IsAllowed ip' \<notin> set (snd (handleShareKnock L B clk h r ip sp st))"
proof -
  obtain valid status err where vs: "ValidateShare B sp (Path r) = (valid, status, err)"
    by (cases "ValidateShare B sp (Path r)")
  then show ?thesis
    by (cases err; cases "GenerateToken L (nowGenerateToken clk) (CookieMaxAge (config h))
                      (SigningKey (config h))")
       (auto simp: handleShareKnock_def Let_def)
qed

lemma ServeHTTP_limiter_identity:
  "(Call_IsAllowed ip \<in> set (events (ServeHTTP L B clk h r)) \<longrightarrow> ip = getClientIP L r)
   \<and> (limiter (ServeHTTP L B clk h r) = rateLimiter h
       \<or> limiter (ServeHTTP L B clk h r)
           = snd (IsAllowed (rateLimiter h) (getClientIP L r) (nowIsAllowed clk)))"
proof (cases "GetProxy (proxyManager h) (Host r)")
  case None
  then show ?thesis by (simp add: ServeHTTP_def)
next
  case (Some sp)
  show ?thesis
  proof (cases "SupportedServices (Type (GetServiceConfig sp))")
    case None
    with Some show ?thesis by (simp add: ServeHTTP_def Let_def)
  next
    case st: (Some st)
    have lim: "\<And>evs. limiter (serveUnauthenticated L B clk h r (getClientIP L r) sp st evs)
                  = rateLimiter h
             \<or> limiter (serveUnauthenticated L B clk h r (getClientIP L r) sp st evs)
                  = snd (IsAllowed (rateLimiter h) (getClientIP L r) (nowIsAllowed clk))"
      by (simp add: serveUnauthenticated_def split_beta Let_def GetRequestCount_def)
    from ServeHTTP_session_or_not [OF Some st, of L B clk]
    consider (session) v where "FullAccessAfterKnock st"
        "events (ServeHTTP L B clk h r)
                 = [Call_ValidateToken v, Call_ProxyServeHTTP,
                    Call_LogAccess (getClientIP L r) (Method r) (Path r) 200]"
      | (knock) evs where
        "ServeHTTP L B clk h r
                 = serveUnauthenticated L B clk h r (getClientIP L r) sp st evs"
        "evs = [] \<or>
                  (\<exists>v err. evs = [Call_ValidateToken v,
                     Call_LogSecurity ''invalid_token'' (getClientIP L r) (ErrorDetails err)])"
      by blast
    then show ?thesis
    proof cases
      case session
      then show ?thesis
        using Some st
        by (auto simp: ServeHTTP_def Let_def lim split: option.splits sum.splits)
    next
      case knock
      note eq = knock(1) and evs = knock(2)
      have "Call_IsAllowed ip \<in> set (events (ServeHTTP L B clk h r)) \<longrightarrow> ip = getClientIP L r"
        using evs handleShareKnock_asks_no_limiter [of ip L B clk h r "getClientIP L r" sp st]
        by (auto simp: eq serveUnauthenticated_events split: if_splits)
      with lim [of evs] show ?thesis
        by (simp add: eq)
    qed
  qed
qed

lemma handleShareKnock_audit:
  "(Call_LogAccess ip' m p s \<in> set (snd (handleShareKnock L B clk h r ip sp st))
      \<longrightarrow> ip' = ip \<and> m = Method r \<and> p = Path r)
   \<and> (Call_LogSecurity kind ip' d \<in> set (snd (handleShareKnock L B clk h r ip sp st))
      \<longrightarrow> ip' = ip)
   \<and> (Call_LogValidation ip' p' v s' \<in> set (snd (handleShareKnock L B clk h r ip sp st))
      \<longrightarrow> ip' = ip)
   \<and> (\<exists>status. Call_LogAccess ip (Method r) (Path r) status
          \<in> set (snd (handleShareKnock L B clk h r ip sp st)))"
proof -
  obtain valid status err where vs: "ValidateShare B sp (Path r) = (valid, status, err)"
    by (cases "ValidateShare B sp (Path r)")
  then show ?thesis
    by (cases err; cases "GenerateToken L (nowGenerateToken clk) (CookieMaxAge (config h))
                      (SigningKey (config h))")
       (auto simp: handleShareKnock_def Let_def)
qed

lemma serveUnauthenticated_audit:
  assumes "evs = [] \<or> (\<exists>v err. evs = [Call_ValidateToken v,
                     Call_LogSecurity ''invalid_token'' ip (ErrorDetails err)])"
  shows "(Call_LogAccess ip' m p s
            \<in> set (events (serveUnauthenticated L B clk h r ip sp st evs))
          \<longrightarrow> ip' = ip \<and> m = Method r \<and> p = Path r)
   \<and> (Call_LogSecurity kind ip' d
            \<in> set (events (serveUnauthenticated L B clk h r ip sp st evs))
          \<longrightarrow> ip' = ip)
   \<and> (Call_LogValidation ip' p' v s'
            \<in> set (events (serveUnauthenticated L B clk h r ip sp st evs))
          \<longrightarrow> ip' = ip)
   \<and> (\<exists>status. Call_LogAccess ip (Method r) (Path r) status
          \<in> set (events (serveUnauthenticated L B clk h r ip sp st evs)))"
proof -
  let ?E = "events (serveUnauthenticated L B clk h r ip sp st evs)"
  let ?K = "snd (handleShareKnock L B clk h r ip sp st)"
  note k = handleShareKnock_audit [of ip' m p s L B clk h r ip sp st kind d p' v s']
  note kA = k [THEN conjunct1, THEN mp]
  note kS = k [THEN conjunct2, THEN conjunct1, THEN mp]
  note kV = k [THEN conjunct2, THEN conjunct2, THEN conjunct1, THEN mp]
  from k [THEN conjunct2, THEN conjunct2, THEN conjunct2] obtain status where
    kP: "Call_LogAccess ip (Method r) (Path r) status \<in> set ?K"
    by (rule exE)
  from assms have eA: "Call_LogAccess ip' m p s \<notin> set evs"
    and eS: "Call_LogSecurity kind ip' d \<in> set evs \<Longrightarrow> ip' = ip"
    and eV: "Call_LogValidation ip' p' v s' \<notin> set evs"
    by auto
  consider (knock) "isSharePath (Path r) st"
        "fst (IsAllowed (rateLimiter h) ip (nowIsAllowed clk))"
    | (limited) "isSharePath (Path r) st"
        "\<not> fst (IsAllowed (rateLimiter h) ip (nowIsAllowed clk))"
    | (denied) "\<not> isSharePath (Path r) st"
    by blast
  then show ?thesis
  proof cases
    case knock
    then have E: "?E = evs @ [Call_isSharePath (Path r), Call_IsAllowed ip] @ ?K"
      by (simp add: serveUnauthenticated_events)
    have "Call_LogAccess ip (Method r) (Path r) status \<in> set ?E"
      using kP by (simp add: E)
    then have P: "\<exists>status. Call_LogAccess ip (Method r) (Path r) status \<in> set ?E" ..
    have A: "Call_LogAccess ip' m p s \<in> set ?E \<longrightarrow> ip' = ip \<and> m = Method r \<and> p = Path r"
    proof
      assume "Call_LogAccess ip' m p s \<in> set ?E"
      with eA have "Call_LogAccess ip' m p s \<in> set ?K" by (simp add: E)
      then show "ip' = ip \<and> m = Method r \<and> p = Path r" by (rule kA)
    qed
    have S: "Call_LogSecurity kind ip' d \<in> set ?E \<longrightarrow> ip' = ip"
    proof
      assume "Call_LogSecurity kind ip' d \<in> set ?E"
      then have "Call_LogSecurity kind ip' d \<in> set evs \<or> Call_LogSecurity kind ip' d \<in> set ?K"
        by (simp add: E)
      then show "ip' = ip"
      proof
        assume "Call_LogSecurity kind ip' d \<in> set evs" then show ?thesis by (rule eS)
      next
        assume "Call_LogSecurity kind ip' d \<in> set ?K" then show ?thesis by (rule kS)
      qed
    qed
    have V: "Call_LogValidation ip' p' v s' \<in> set ?E \<longrightarrow> ip' = ip"
    proof
      assume "Call_LogValidation ip' p' v s' \<in> set ?E"
      with eV have "Call_LogValidation ip' p' v s' \<in> set ?K" by (simp add: E)
      then show "ip' = ip" by (rule kV)
    qed
    show ?thesis by (intro conjI) (rule A, rule S, rule V, rule P)
  next
    case limited
    then have E: "?E = evs @
           [Call_isSharePath (Path r), Call_IsAllowed ip, Call_GetRequestCount ip,
            Call_LogSecurity ''rate_limit_exceeded'' ip
              (RateLimitDetails
                 (fst (GetRequestCount (snd (IsAllowed (rateLimiter h) ip (nowIsAllowed clk)))
                         ip (nowGetRequestCount clk)))
                 (RateLimitWindow (config h))),
            Call_httpError ''Too Many Requests'' 429,
            Call_LogAccess ip (Method r) (Path r) 429]"
      by (simp add: serveUnauthenticated_events)
    have "Call_LogAccess ip (Method r) (Path r) 429 \<in> set ?E"
      by (simp add: E)
    then have P: "\<exists>status. Call_LogAccess ip (Method r) (Path r) status \<in> set ?E" ..
    have A: "Call_LogAccess ip' m p s \<in> set ?E \<longrightarrow> ip' = ip \<and> m = Method r \<and> p = Path r"
    proof
      assume "Call_LogAccess ip' m p s \<in> set ?E"
      with eA show "ip' = ip \<and> m = Method r \<and> p = Path r" by (simp add: E)
    qed
    have S: "Call_LogSecurity kind ip' d \<in> set ?E \<longrightarrow> ip' = ip"
    proof
      assume "Call_LogSecurity kind ip' d \<in> set ?E"
      then have "Call_LogSecurity kind ip' d \<in> set evs \<or> ip' = ip"
        by (auto simp: E)
      then show "ip' = ip"
      proof
        assume "Call_LogSecurity kind ip' d \<in> set evs" then show ?thesis by (rule eS)
      next
        assume "ip' = ip" then show ?thesis .
      qed
    qed
    have V: "Call_LogValidation ip' p' v s' \<in> set ?E \<longrightarrow> ip' = ip"
    proof
      assume "Call_LogValidation ip' p' v s' \<in> set ?E"
      with eV show "ip' = ip" by (simp add: E)
    qed
    show ?thesis by (intro conjI) (rule A, rule S, rule V, rule P)
  next
    case denied
    then have E: "?E = evs @ [Call_isSharePath (Path r), Call_httpError ''Access Denied'' 403,
            Call_LogAccess ip (Method r) (Path r) 403]"
      by (simp add: serveUnauthenticated_events)
    have "Call_LogAccess ip (Method r) (Path r) 403 \<in> set ?E"
      by (simp add: E)
    then have P: "\<exists>status. Call_LogAccess ip (Method r) (Path r) status \<in> set ?E" ..
    have A: "Call_LogAccess ip' m p s \<in> set ?E \<longrightarrow> ip' = ip \<and> m = Method r \<and> p = Path r"
    proof
      assume "Call_LogAccess ip' m p s \<in> set ?E"
      with eA show "ip' = ip \<and> m = Method r \<and> p = Path r" by (simp add: E)
    qed
    have S: "Call_LogSecurity kind ip' d \<in> set ?E \<longrightarrow> ip' = ip"
    proof
      assume "Call_LogSecurity kind ip' d \<in> set ?E"
      then have "Call_LogSecurity kind ip' d \<in> set evs \<or> ip' = ip"
        by (auto simp: E)
      then show "ip' = ip"
      proof
        assume "Call_LogSecurity kind ip' d \<in> set evs" then show ?thesis by (rule eS)
      next
        assume "ip' = ip" then show ?thesis .
      qed
    qed
    have V: "Call_LogValidation ip' p' v s' \<in> set ?E \<longrightarrow> ip' = ip"
    proof
      assume "Call_LogValidation ip' p' v s' \<in> set ?E"
      with eV show "ip' = ip" by (simp add: E)
    qed
    show ?thesis by (intro conjI) (rule A, rule S, rule V, rule P)
  qed
qed

lemma ServeHTTP_audit_identity:
  "(Call_LogAccess ip' m p s \<in> set (events (ServeHTTP L B clk h r))
      \<longrightarrow> ip' = getClientIP L r \<and> m = Method r \<and> p = Path r)
   \<and> (Call_LogSecurity kind ip' d \<in> set (events (ServeHTTP L B clk h r))
      \<longrightarrow> ip' = getClientIP L r)
   \<and> (Call_LogValidation ip' p' v s' \<in> set (events (ServeHTTP L B clk h r))
      \<longrightarrow> ip' = getClientIP L r)
   \<and> (\<exists>status. Call_LogAccess (getClientIP L r) (Method r) (Path r) status
          \<in> set (events (ServeHTTP L B clk h r)))"
proof (cases "GetProxy (proxyManager h) (Host r)")
  case None
  then show ?thesis by (simp add: ServeHTTP_def)
next
  case (Some sp)
  show ?thesis
  proof (cases "SupportedServices (Type (GetServiceConfig sp))")
    case None
    with Some show ?thesis by (simp add: ServeHTTP_def Let_def)
  next
    case st: (Some st)
    from ServeHTTP_session_or_not [OF Some st, of L B clk]
    consider (session) v0 where
        "events (ServeHTTP L B clk h r)
                 = [Call_ValidateToken v0, Call_ProxyServeHTTP,
                    Call_LogAccess (getClientIP L r) (Method r) (Path r) 200]"
      | (knock) evs where
        "ServeHTTP L B clk h r
                 = serveUnauthenticated L B clk h r (getClientIP L r) sp st evs"
        "evs = [] \<or>
                  (\<exists>v err. evs = [Call_ValidateToken v,
                     Call_LogSecurity ''invalid_token'' (getClientIP L r) (ErrorDetails err)])"
      by blast
    then show ?thesis
    proof cases
      case session
      have "Call_LogAccess (getClientIP L r) (Method r) (Path r) 200
              \<in> set (events (ServeHTTP L B clk h r))"
        by (simp add: session)
      then have "\<exists>status. Call_LogAccess (getClientIP L r) (Method r) (Path r) status
              \<in> set (events (ServeHTTP L B clk h r))" ..
      then show ?thesis by (simp add: session)
    next
      case knock
      from serveUnauthenticated_audit [OF knock(2), of ip' m p s L B clk h r sp st kind d p' v s']
      show ?thesis unfolding knock(1) .
    qed
  qed
qed

lemma ServeHTTP_asks_limiter:
  assumes "GetProxy (proxyManager h) (Host r) = Some sp"
    and "SupportedServices (Type (GetServiceConfig sp)) = Some st"
    and "isSharePath (Path r) st"
    and "\<not> FullAccessAfterKnock st \<or>
         (\<forall>v. Cookies r ''sneak-link-token'' = Some v \<longrightarrow>
           (\<exists>err. ValidateToken L (nowValidateToken clk) v (SigningKey (config h)) = Inl err))"
  shows "Call_IsAllowed (getClientIP L r) \<in> set (events (ServeHTTP L B clk h r))
       \<and> limiter (ServeHTTP L B clk h r)
           = snd (IsAllowed (rateLimiter h) (getClientIP L r) (nowIsAllowed clk))"
proof -
  from ServeHTTP_without_session [OF assms(1,2,4), of B]
  obtain evs where eq: "ServeHTTP L B clk h r
                 = serveUnauthenticated L B clk h r (getClientIP L r) sp st evs"
    by blast
  have "limiter (serveUnauthenticated L B clk h r (getClientIP L r) sp st evs)
          = snd (IsAllowed (rateLimiter h) (getClientIP L r) (nowIsAllowed clk))"
    using assms(3)
    by (simp add: serveUnauthenticated_def split_beta Let_def GetRequestCount_def)
  moreover have "Call_IsAllowed (getClientIP L r)
          \<in> set (events (serveUnauthenticated L B clk h r (getClientIP L r) sp st evs))"
    using assms(3) by (simp add: serveUnauthenticated_events)
  ultimately show ?thesis by (simp add: eq)
qed

lemma getClientIP_sources:
  "(Header r ''X-Forwarded-For'' \<noteq> [] \<longrightarrow>
      getClientIP L r
        = strings_TrimSpace L (takeWhile (\<lambda>c. c \<noteq> CHR '','') (Header r ''X-Forwarded-For'')))
   \<and> (Header r ''X-Forwarded-For'' = [] \<and> Header r ''X-Real-IP'' \<noteq> [] \<longrightarrow>
      getClientIP L r = strings_TrimSpace L (Header r ''X-Real-IP''))
   \<and> (Header r ''X-Forwarded-For'' = [] \<and> Header r ''X-Real-IP'' = []
       \<and> RemoteAddr r = brackets @ host @ brackets' @ '':'' @ port
       \<and> CHR '':'' \<notin> set port
       \<and> set brackets \<subseteq> set ''[]'' \<and> set brackets' \<subseteq> set ''[]''
       \<and> (host = [] \<or> (hd host \<notin> set ''[]'' \<and> last host \<notin> set ''[]'')) \<longrightarrow>
      getClientIP L r = host)
   \<and> (ident \<noteq> [] \<and> CHR '','' \<notin> set ident \<and> strings_TrimSpace L ident = ident \<longrightarrow>
      getClientIP L (r\<lparr>Header := (Header r)(''X-Forwarded-For'' := ident)\<rparr>) = ident)"
proof (intro conjI impI)
  assume "Header r ''X-Forwarded-For'' \<noteq> []"
  then show "getClientIP L r
        = strings_TrimSpace L (takeWhile (\<lambda>c. c \<noteq> CHR '','') (Header r ''X-Forwarded-For''))"
    by (rule getClientIP_forwarded)
next
  assume "Header r ''X-Forwarded-For'' = [] \<and> Header r ''X-Real-IP'' \<noteq> []"
  then show "getClientIP L r = strings_TrimSpace L (Header r ''X-Real-IP'')"
    by (simp add: getClientIP_real_ip)
next
  assume a: "Header r ''X-Forwarded-For'' = [] \<and> Header r ''X-Real-IP'' = []
       \<and> RemoteAddr r = brackets @ host @ brackets' @ '':'' @ port
       \<and> CHR '':'' \<notin> set port
       \<and> set brackets \<subseteq> set ''[]'' \<and> set brackets' \<subseteq> set ''[]''
       \<and> (host = [] \<or> (hd host \<notin> set ''[]'' \<and> last host \<notin> set ''[]''))"
  then have x: "Header r ''X-Forwarded-For'' = []" and y: "Header r ''X-Real-IP'' = []"
    and ra: "RemoteAddr r = (brackets @ host @ brackets') @ '':'' @ port"
    and p: "CHR '':'' \<notin> set port"
    by simp_all
  have "getClientIP L r = Trim (brackets @ host @ brackets') ''[]''"
    by (rule getClientIP_remote [OF x y ra p])
  also have "\<dots> = host"
    using a by (intro Trim_surrounding) simp_all
  finally show "getClientIP L r = host" .
next
  assume a: "ident \<noteq> [] \<and> CHR '','' \<notin> set ident \<and> strings_TrimSpace L ident = ident"
  let ?r = "r\<lparr>Header := (Header r)(''X-Forwarded-For'' := ident)\<rparr>"
  from a have "\<forall>c \<in> set ident. c \<noteq> CHR '',''"
    by blast
  then have tw: "takeWhile (\<lambda>c. c \<noteq> CHR '','') ident = ident"
    by (simp only: takeWhile_eq_all_conv)
  have hd: "Header ?r ''X-Forwarded-For'' = ident"
    by simp
  with a have "getClientIP L ?r
        = strings_TrimSpace L (takeWhile (\<lambda>c. c \<noteq> CHR '','') (Header ?r ''X-Forwarded-For''))"
    by (intro getClientIP_forwarded) simp
  also have "\<dots> = ident"
    unfolding hd tw using a by simp
  finally show "getClientIP L ?r = ident" .
qed

text \<open>
  Claim C10. The client identity is: the first comma-separated entry of
  \<^verbatim>\<open>X-Forwarded-For\<close> (white space trimmed) when that header is not empty; otherwise
  \<^verbatim>\<open>X-Real-IP\<close> (trimmed) when that is not empty; otherwise \<^verbatim>\<open>RemoteAddr\<close> without
  what follows its last \<open>:\<close> and without the brackets around the rest. Hence any
  non-empty identity without a comma and without white space at its ends is the identity
  of a request that carries it in \<^verbatim>\<open>X-Forwarded-For\<close>, whatever the connection.
  This identity is the one used for rate limiting: the handler asks the limiter about no
  other, the limiter it leaves behind is the one it found or the one after
  \<^verbatim>\<open>IsAllowed\<close> for this identity, and a knock on a share path that is not taken by a
  session does ask the limiter about it. It is also the one in the audit records: every
  access, security and validation record of the request carries it (the access record
  with the method and the path of the request), and every request writes an access record
  with it.
\<close>

theorem client_identity_from_headers:
  "(Header r ''X-Forwarded-For'' \<noteq> [] \<longrightarrow>
      getClientIP L r
        = strings_TrimSpace L (takeWhile (\<lambda>c. c \<noteq> CHR '','') (Header r ''X-Forwarded-For'')))
   \<and> (Header r ''X-Forwarded-For'' = [] \<and> Header r ''X-Real-IP'' \<noteq> [] \<longrightarrow>
      getClientIP L r = strings_TrimSpace L (Header r ''X-Real-IP''))
   \<and> (Header r ''X-Forwarded-For'' = [] \<and> Header r ''X-Real-IP'' = []
       \<and> RemoteAddr r = brackets @ host @ brackets' @ '':'' @ port
       \<and> CHR '':'' \<notin> set port
       \<and> set brackets \<subseteq> set ''[]'' \<and> set brackets' \<subseteq> set ''[]''
       \<and> (host = [] \<or> (hd host \<notin> set ''[]'' \<and> last host \<notin> set ''[]'')) \<longrightarrow>
      getClientIP L r = host)
   \<and> (ident \<noteq> [] \<and> CHR '','' \<notin> set ident \<and> strings_TrimSpace L ident = ident \<longrightarrow>
      getClientIP L (r\<lparr>Header := (Header r)(''X-Forwarded-For'' := ident)\<rparr>) = ident)
   \<and> (Call_IsAllowed ip \<in> set (events (ServeHTTP L B clk h r)) \<longrightarrow> ip = getClientIP L r)
   \<and> (limiter (ServeHTTP L B clk h r) = rateLimiter h
       \<or> limiter (ServeHTTP L B clk h r)
           = snd (IsAllowed (rateLimiter h) (getClientIP L r) (nowIsAllowed clk)))
   \<and> (Call_LogAccess ip' m p s \<in> set (events (ServeHTTP L B clk h r))
        \<longrightarrow> ip' = getClientIP L r \<and> m = Method r \<and> p = Path r)
   \<and> (Call_LogSecurity kind ip' d \<in> set (events (ServeHTTP L B clk h r))
        \<longrightarrow> ip' = getClientIP L r)
   \<and> (Call_LogValidation ip' p' v s' \<in> set (events (ServeHTTP L B clk h r))
        \<longrightarrow> ip' = getClientIP L r)
   \<and> (\<exists>status. Call_LogAccess (getClientIP L r) (Method r) (Path r) status
          \<in> set (events (ServeHTTP L B clk h r)))
   \<and> (GetProxy (proxyManager h) (Host r) = Some sp
       \<and> SupportedServices (Type (GetServiceConfig sp)) = Some st
       \<and> isSharePath (Path r) st
       \<and> (\<not> FullAccessAfterKnock st \<or>
           (\<forall>c. Cookies r ''sneak-link-token'' = Some c \<longrightarrow>
              (\<exists>err. ValidateToken L (nowValidateToken clk) c (SigningKey (config h))
                       = Inl err))) \<longrightarrow>
       Call_IsAllowed (getClientIP L r) \<in> set (events (ServeHTTP L B clk h r))
       \<and> limiter (ServeHTTP L B clk h r)
           = snd (IsAllowed (rateLimiter h) (getClientIP L r) (nowIsAllowed clk)))"
proof -
  note src = getClientIP_sources [of r L brackets host brackets' port ident]
  note lim = ServeHTTP_limiter_identity [of ip L B clk h r]
  note aud = ServeHTTP_audit_identity [of ip' m p s L B clk h r kind d p' v s']
  have asks: "GetProxy (proxyManager h) (Host r) = Some sp
       \<and> SupportedServices (Type (GetServiceConfig sp)) = Some st
       \<and> isSharePath (Path r) st
       \<and> (\<not> FullAccessAfterKnock st \<or>
           (\<forall>c. Cookies r ''sneak-link-token'' = Some c \<longrightarrow>
              (\<exists>err. ValidateToken L (nowValidateToken clk) c (SigningKey (config h))
                       = Inl err))) \<longrightarrow>
       Call_IsAllowed (getClientIP L r) \<in> set (events (ServeHTTP L B clk h r))
       \<and> limiter (ServeHTTP L B clk h r)
           = snd (IsAllowed (rateLimiter h) (getClientIP L r) (nowIsAllowed clk))"
  proof
    assume a: "GetProxy (proxyManager h) (Host r) = Some sp
       \<and> SupportedServices (Type (GetServiceConfig sp)) = Some st
       \<and> isSharePath (Path r) st
       \<and> (\<not> FullAccessAfterKnock st \<or>
           (\<forall>c. Cookies r ''sneak-link-token'' = Some c \<longrightarrow>
              (\<exists>err. ValidateToken L (nowValidateToken clk) c (SigningKey (config h))
                       = Inl err)))"
    note a1 = a [THEN conjunct1]
    note a2 = a [THEN conjunct2, THEN conjunct1]
    note a3 = a [THEN conjunct2, THEN conjunct2, THEN conjunct1]
    note a4 = a [THEN conjunct2, THEN conjunct2, THEN conjunct2]
    show "Call_IsAllowed (getClientIP L r) \<in> set (events (ServeHTTP L B clk h r))
       \<and> limiter (ServeHTTP L B clk h r)
           = snd (IsAllowed (rateLimiter h) (getClientIP L r) (nowIsAllowed clk))"
      by (rule ServeHTTP_asks_limiter [OF a1 a2 a3 a4])
  qed
  show ?thesis
    by (intro conjI)
       (rule src [THEN conjunct1],
        rule src [THEN conjunct2, THEN conjunct1],
        rule src [THEN conjunct2, THEN conjunct2, THEN conjunct1],
        rule src [THEN conjunct2, THEN conjunct2, THEN conjunct2],
        rule lim [THEN conjunct1],
        rule lim [THEN conjunct2],
        rule aud [THEN conjunct1],
        rule aud [THEN conjunct2, THEN conjunct1],
        rule aud [THEN conjunct2, THEN conjunct2, THEN conjunct1],
        rule aud [THEN conjunct2, THEN conjunct2, THEN conjunct2],
        rule asks)
qed

section \<open>The handler on concrete requests\<close>

text \<open>A request for a share path on a hostname that is not configured.\<close>

theorem unknown_host_not_found_witness:
  "proxies (proxyManager sampleHandler) (Host (sampleRequest ''other.example.com'' ''/s/AbCdEf123'' None)) = None
   \<and> response (ServeHTTP sampleLib sampleBackend sampleClock sampleHandler
         (sampleRequest ''other.example.com'' ''/s/AbCdEf123'' None))
       = HttpError ''Service Not Found'' 404"
proof -
  have h: "proxies (proxyManager sampleHandler)
             (Host (sampleRequest ''other.example.com'' ''/s/AbCdEf123'' None)) = None"
    by code_simp
  from unknown_host_not_found [OF h, of sampleLib sampleBackend sampleClock] h
  show ?thesis by blast
qed

text \<open>A request with a valid token for a path of the Nextcloud that is no share path.\<close>

theorem valid_token_is_proxied_witness:
  "GetProxy (proxyManager sampleHandler)
       (Host (sampleRequest ''cloud.example.com'' ''/apps/files'' (Some ''050a.6d61633a6b3a30353061'')))
     = Some \<lparr>spConfig = \<lparr>Type = ''nextcloud'', URL = ''http://cloud.internal:8080'',
                            Domain' = ''cloud.internal''\<rparr>\<rparr>
   \<and> SupportedServices ''nextcloud''
       = Some \<lparr>Name = ''nextcloud'', SharePaths = [''/s/''], ValidateMethod = ''head'',
                FullAccessAfterKnock = True\<rparr>
   \<and> ValidateToken sampleLib (nowValidateToken sampleClock) ''050a.6d61633a6b3a30353061''
         (SigningKey (config sampleHandler)) = Inr \<lparr>IssuedAt = 5, ExpiresAt = 10\<rparr>
   \<and> response (ServeHTTP sampleLib sampleBackend sampleClock sampleHandler
         (sampleRequest ''cloud.example.com'' ''/apps/files'' (Some ''050a.6d61633a6b3a30353061'')))
       = Proxied
   \<and> limiter (ServeHTTP sampleLib sampleBackend sampleClock sampleHandler
         (sampleRequest ''cloud.example.com'' ''/apps/files'' (Some ''050a.6d61633a6b3a30353061'')))
       = rateLimiter sampleHandler"
proof -
  let ?r = "sampleRequest ''cloud.example.com'' ''/apps/files'' (Some ''050a.6d61633a6b3a30353061'')"
  let ?sp = "\<lparr>spConfig = \<lparr>Type = ''nextcloud'', URL = ''http://cloud.internal:8080'',
                            Domain' = ''cloud.internal''\<rparr>\<rparr>"
  let ?st = "\<lparr>Name = ''nextcloud'', SharePaths = [''/s/''], ValidateMethod = ''head'',
                FullAccessAfterKnock = True\<rparr>"
  have h1: "GetProxy (proxyManager sampleHandler) (Host ?r) = Some ?sp"
    by code_simp
  have h2': "SupportedServices ''nextcloud'' = Some ?st"
    by code_simp
  then have h2: "SupportedServices (Type (GetServiceConfig ?sp)) = Some ?st"
    by (simp add: GetServiceConfig_def)
  have h3: "FullAccessAfterKnock ?st"
    by simp
  have h4: "Cookies ?r ''sneak-link-token'' = Some ''050a.6d61633a6b3a30353061''"
    by (simp add: sampleRequest_def)
  have h5: "ValidateToken sampleLib (nowValidateToken sampleClock) ''050a.6d61633a6b3a30353061''
         (SigningKey (config sampleHandler)) = Inr \<lparr>IssuedAt = 5, ExpiresAt = 10\<rparr>"
    by code_simp
  from valid_token_is_proxied [OF h1 h2 h3 h4 h5, of sampleBackend] h1 h2' h5
  show ?thesis by blast
qed

text \<open>
  Claim C1 as stated fails for a service without \<^verbatim>\<open>FullAccessAfterKnock\<close>: on the
  Paperless hostname a request with a valid token is refused with 403 when its path is
  no share path, and on a share path it goes through the path check, the limiter and the
  validation like a request without a cookie.
\<close>

theorem valid_token_ignored_counterexample:
  "GetProxy (proxyManager sampleHandler) ''docs.example.com''
     = Some \<lparr>spConfig = \<lparr>Type = ''paperless'', URL = ''http://docs.internal:8000'',
                            Domain' = ''docs.internal''\<rparr>\<rparr>
   \<and> Cookies (sampleRequest ''docs.example.com'' ''/documents/7'' (Some ''050a.6d61633a6b3a30353061''))
         ''sneak-link-token'' = Some ''050a.6d61633a6b3a30353061''
   \<and> ValidateToken sampleLib (nowValidateToken sampleClock) ''050a.6d61633a6b3a30353061''
         (SigningKey (config sampleHandler)) = Inr \<lparr>IssuedAt = 5, ExpiresAt = 10\<rparr>
   \<and> response (ServeHTTP sampleLib sampleBackend sampleClock sampleHandler
         (sampleRequest ''docs.example.com'' ''/documents/7'' (Some ''050a.6d61633a6b3a30353061'')))
       = HttpError ''Access Denied'' 403
   \<and> events (ServeHTTP sampleLib sampleBackend sampleClock sampleHandler
         (sampleRequest ''docs.example.com'' ''/share/XyZ789'' (Some ''050a.6d61633a6b3a30353061'')))
       = [Call_isSharePath ''/share/XyZ789'', Call_IsAllowed ''203.0.113.9'',
          Call_ValidateShare ''/share/XyZ789'',
          Call_LogValidation ''203.0.113.9'' ''/share/XyZ789'' True 200,
          Call_LogSecurity ''access_granted'' ''203.0.113.9''
            (ShareDetails ''/share/XyZ789'' ''paperless''),
          Call_ProxyServeHTTP,
          Call_LogAccess ''203.0.113.9'' ''GET'' ''/share/XyZ789'' 200]"
  by code_simp

text \<open>The second knock of a client within the window, under a limit of one.\<close>

theorem rate_limited_knock_not_validated_witness:
  "GetProxy (proxyManager sampleHandler) ''cloud.example.com''
     = Some \<lparr>spConfig = \<lparr>Type = ''nextcloud'', URL = ''http://cloud.internal:8080'',
                            Domain' = ''cloud.internal''\<rparr>\<rparr>
   \<and> isSharePath ''/s/AbCdEf123''
         \<lparr>Name = ''nextcloud'', SharePaths = [''/s/''], ValidateMethod = ''head'',
          FullAccessAfterKnock = True\<rparr>
   \<and> Cookies (sampleRequest ''cloud.example.com'' ''/s/AbCdEf123'' None) ''sneak-link-token'' = None
   \<and> fst (IsAllowed (snd (IsAllowed (rateLimiter sampleHandler) ''203.0.113.9'' 6))
              ''203.0.113.9'' (nowIsAllowed sampleClock)) = False
   \<and> response (ServeHTTP sampleLib sampleBackend sampleClock
         (sampleHandler\<lparr>rateLimiter :=
            snd (IsAllowed (rateLimiter sampleHandler) ''203.0.113.9'' 6)\<rparr>)
         (sampleRequest ''cloud.example.com'' ''/s/AbCdEf123'' None))
       = HttpError ''Too Many Requests'' 429
   \<and> Call_ValidateShare ''/s/AbCdEf123'' \<notin> set (events (ServeHTTP sampleLib sampleBackend sampleClock
         (sampleHandler\<lparr>rateLimiter :=
            snd (IsAllowed (rateLimiter sampleHandler) ''203.0.113.9'' 6)\<rparr>)
         (sampleRequest ''cloud.example.com'' ''/s/AbCdEf123'' None)))"
proof -
  let ?r = "sampleRequest ''cloud.example.com'' ''/s/AbCdEf123'' None"
  let ?h = "sampleHandler\<lparr>rateLimiter :=
              snd (IsAllowed (rateLimiter sampleHandler) ''203.0.113.9'' 6)\<rparr>"
  let ?sp = "\<lparr>spConfig = \<lparr>Type = ''nextcloud'', URL = ''http://cloud.internal:8080'',
                            Domain' = ''cloud.internal''\<rparr>\<rparr>"
  let ?st = "\<lparr>Name = ''nextcloud'', SharePaths = [''/s/''], ValidateMethod = ''head'',
                FullAccessAfterKnock = True\<rparr>"
  have g: "GetProxy (proxyManager sampleHandler) ''cloud.example.com'' = Some ?sp"
    by code_simp
  then have h1: "GetProxy (proxyManager ?h) (Host ?r) = Some ?sp"
    by (simp add: sampleRequest_def)
  have h2: "SupportedServices (Type (GetServiceConfig ?sp)) = Some ?st"
    by code_simp
  have s: "isSharePath ''/s/AbCdEf123'' ?st"
    by code_simp
  then have h3: "isSharePath (Path ?r) ?st"
    by (simp add: sampleRequest_def)
  have c: "Cookies ?r ''sneak-link-token'' = None"
    by (simp add: sampleRequest_def)
  then have h4: "\<forall>v. Cookies ?r ''sneak-link-token'' = Some v \<longrightarrow>
           (\<exists>err. ValidateToken sampleLib (nowValidateToken sampleClock) v
                    (SigningKey (config ?h)) = Inl err)"
    by simp
  have ip: "getClientIP sampleLib ?r = ''203.0.113.9''"
    by code_simp
  have a: "fst (IsAllowed (snd (IsAllowed (rateLimiter sampleHandler) ''203.0.113.9'' 6))
              ''203.0.113.9'' (nowIsAllowed sampleClock)) = False"
    by code_simp
  then have h5: "fst (IsAllowed (rateLimiter ?h) (getClientIP sampleLib ?r)
                   (nowIsAllowed sampleClock)) = False"
    by (simp add: ip)
  from rate_limited_knock_not_validated [OF h1 h2 h3 h4 h5, of sampleBackend] g s c a
  show ?thesis by blast
qed

text \<open>The same knock on the Paperless (no session) and on the Nextcloud (session).\<close>

theorem session_cookie_only_when_granted_witness:
  "GetProxy (proxyManager sampleHandler) ''docs.example.com''
     = Some \<lparr>spConfig = \<lparr>Type = ''paperless'', URL = ''http://docs.internal:8000'',
                            Domain' = ''docs.internal''\<rparr>\<rparr>
   \<and> ValidateShare sampleBackend
         \<lparr>spConfig = \<lparr>Type = ''paperless'', URL = ''http://docs.internal:8000'',
                       Domain' = ''docs.internal''\<rparr>\<rparr> ''/share/XyZ789'' = (True, 200, None)
   \<and> response (ServeHTTP sampleLib sampleBackend sampleClock sampleHandler
         (sampleRequest ''docs.example.com'' ''/share/XyZ789'' None)) = Proxied
   \<and> (\<forall>c. Call_SetCookie c \<notin> set (events (ServeHTTP sampleLib sampleBackend sampleClock
         sampleHandler (sampleRequest ''docs.example.com'' ''/share/XyZ789'' None))))
   \<and> Call_GenerateToken \<notin> set (events (ServeHTTP sampleLib sampleBackend sampleClock
         sampleHandler (sampleRequest ''docs.example.com'' ''/share/XyZ789'' None)))
   \<and> Call_SetCookie (sessionCookie sampleHandler
          \<lparr>Type = ''nextcloud'', URL = ''http://cloud.internal:8080'', Domain' = ''cloud.internal''\<rparr>
          ''050a.6d61633a6b3a30353061'')
        \<in> set (events (ServeHTTP sampleLib sampleBackend sampleClock sampleHandler
              (sampleRequest ''cloud.example.com'' ''/s/AbCdEf123'' None)))
   \<and> FullAccessAfterKnock
         \<lparr>Name = ''nextcloud'', SharePaths = [''/s/''], ValidateMethod = ''head'',
          FullAccessAfterKnock = True\<rparr>"
proof -
  let ?docs = "\<lparr>spConfig = \<lparr>Type = ''paperless'', URL = ''http://docs.internal:8000'',
                            Domain' = ''docs.internal''\<rparr>\<rparr>"
  let ?paperless = "\<lparr>Name = ''paperless'', SharePaths = [''/share/''],
                     ValidateMethod = ''head'', FullAccessAfterKnock = False\<rparr>"
  let ?cloud = "\<lparr>spConfig = \<lparr>Type = ''nextcloud'', URL = ''http://cloud.internal:8080'',
                            Domain' = ''cloud.internal''\<rparr>\<rparr>"
  let ?nextcloud = "\<lparr>Name = ''nextcloud'', SharePaths = [''/s/''], ValidateMethod = ''head'',
                FullAccessAfterKnock = True\<rparr>"
  let ?rd = "sampleRequest ''docs.example.com'' ''/share/XyZ789'' None"
  let ?rc = "sampleRequest ''cloud.example.com'' ''/s/AbCdEf123'' None"
  let ?cookie = "sessionCookie sampleHandler
          \<lparr>Type = ''nextcloud'', URL = ''http://cloud.internal:8080'', Domain' = ''cloud.internal''\<rparr>
          ''050a.6d61633a6b3a30353061''"
  have g: "GetProxy (proxyManager sampleHandler) ''docs.example.com'' = Some ?docs"
    by code_simp
  then have d1: "GetProxy (proxyManager sampleHandler) (Host ?rd) = Some ?docs"
    by (simp add: sampleRequest_def)
  have d2: "SupportedServices (Type (GetServiceConfig ?docs)) = Some ?paperless"
    by code_simp
  have v: "ValidateShare sampleBackend ?docs ''/share/XyZ789'' = (True, 200, None)"
    by code_simp
  have d3: "\<not> FullAccessAfterKnock ?paperless \<and> isSharePath (Path ?rd) ?paperless
            \<and> fst (IsAllowed (rateLimiter sampleHandler) (getClientIP sampleLib ?rd)
                     (nowIsAllowed sampleClock))
            \<and> ValidateShare sampleBackend ?docs (Path ?rd) = (True, 200, None)"
    by code_simp
  have c1: "GetProxy (proxyManager sampleHandler) (Host ?rc) = Some ?cloud"
    by code_simp
  have c2: "SupportedServices (Type (GetServiceConfig ?cloud)) = Some ?nextcloud"
    by code_simp
  have c3: "Call_SetCookie ?cookie
              \<in> set (events (ServeHTTP sampleLib sampleBackend sampleClock sampleHandler ?rc))"
    by code_simp
  note docs = session_cookie_only_when_granted [OF d1 d2, of sampleLib sampleBackend sampleClock 200]
  note cloud = session_cookie_only_when_granted [OF c1 c2, of sampleLib sampleBackend sampleClock
                  _ ?cookie]
  from docs d3 have "response (ServeHTTP sampleLib sampleBackend sampleClock sampleHandler ?rd)
                       = Proxied"
    by blast
  moreover from docs d3
  have "(\<forall>c. Call_SetCookie c \<notin> set (events (ServeHTTP sampleLib sampleBackend sampleClock
                 sampleHandler ?rd)))
         \<and> Call_GenerateToken \<notin> set (events (ServeHTTP sampleLib sampleBackend sampleClock
                 sampleHandler ?rd))"
    by blast
  moreover from cloud c3 have "FullAccessAfterKnock ?nextcloud"
    by blast
  ultimately show ?thesis
    using g v c3 by blast
qed

text \<open>
  Requests with each of the three sources, one with a header of the client's choice, and
  the records and the limiter of a knock.
\<close>

theorem client_identity_from_headers_witness:
  "getClientIP sampleLib
      ((sampleRequest ''cloud.example.com'' ''/s/AbCdEf123'' None)
         \<lparr>Header := (\<lambda>name. if name = ''X-Forwarded-For'' then ''198.51.100.7, 10.0.0.1'' else [])\<rparr>)
     = ''198.51.100.7''
   \<and> getClientIP sampleLib
      ((sampleRequest ''cloud.example.com'' ''/s/AbCdEf123'' None)
         \<lparr>Header := (\<lambda>name. if name = ''X-Real-IP'' then ''198.51.100.8'' else [])\<rparr>)
     = ''198.51.100.8''
   \<and> getClientIP sampleLib
      ((sampleRequest ''cloud.example.com'' ''/s/AbCdEf123'' None)
         \<lparr>RemoteAddr := ''[2001:db8::1]:4711''\<rparr>)
     = ''2001:db8::1''
   \<and> getClientIP sampleLib
      ((sampleRequest ''cloud.example.com'' ''/s/AbCdEf123'' None)
         \<lparr>Header := (Header (sampleRequest ''cloud.example.com'' ''/s/AbCdEf123'' None))
                       (''X-Forwarded-For'' := ''anyone'')\<rparr>)
     = ''anyone''
   \<and> Call_IsAllowed ''203.0.113.9''
        \<in> set (events (ServeHTTP sampleLib sampleBackend sampleClock sampleHandler
              (sampleRequest ''cloud.example.com'' ''/s/AbCdEf123'' None)))
   \<and> ''203.0.113.9''
       = getClientIP sampleLib (sampleRequest ''cloud.example.com'' ''/s/AbCdEf123'' None)
   \<and> Call_LogAccess ''203.0.113.9'' ''GET'' ''/s/AbCdEf123'' 200
        \<in> set (events (ServeHTTP sampleLib sampleBackend sampleClock sampleHandler
              (sampleRequest ''cloud.example.com'' ''/s/AbCdEf123'' None)))
   \<and> ''203.0.113.9''
       = getClientIP sampleLib (sampleRequest ''cloud.example.com'' ''/s/AbCdEf123'' None)
   \<and> ''GET'' = Method (sampleRequest ''cloud.example.com'' ''/s/AbCdEf123'' None)
   \<and> ''/s/AbCdEf123'' = Path (sampleRequest ''cloud.example.com'' ''/s/AbCdEf123'' None)
   \<and> Call_LogSecurity ''access_granted'' ''203.0.113.9''
          (ShareDetails ''/s/AbCdEf123'' ''nextcloud'')
        \<in> set (events (ServeHTTP sampleLib sampleBackend sampleClock sampleHandler
              (sampleRequest ''cloud.example.com'' ''/s/AbCdEf123'' None)))
   \<and> ''203.0.113.9''
       = getClientIP sampleLib (sampleRequest ''cloud.example.com'' ''/s/AbCdEf123'' None)
   \<and> Call_LogValidation ''203.0.113.9'' ''/s/AbCdEf123'' True 200
        \<in> set (events (ServeHTTP sampleLib sampleBackend sampleClock sampleHandler
              (sampleRequest ''cloud.example.com'' ''/s/AbCdEf123'' None)))
   \<and> ''203.0.113.9''
       = getClientIP sampleLib (sampleRequest ''cloud.example.com'' ''/s/AbCdEf123'' None)
   \<and> GetProxy (proxyManager sampleHandler)
         (Host (sampleRequest ''cloud.example.com'' ''/s/AbCdEf123'' None))
       = Some \<lparr>spConfig = \<lparr>Type = ''nextcloud'', URL = ''http://cloud.internal:8080'',
                              Domain' = ''cloud.internal''\<rparr>\<rparr>
   \<and> isSharePath (Path (sampleRequest ''cloud.example.com'' ''/s/AbCdEf123'' None))
         \<lparr>Name = ''nextcloud'', SharePaths = [''/s/''], ValidateMethod = ''head'',
          FullAccessAfterKnock = True\<rparr>
   \<and> Cookies (sampleRequest ''cloud.example.com'' ''/s/AbCdEf123'' None) ''sneak-link-token''
       = None
   \<and> Call_IsAllowed
          (getClientIP sampleLib (sampleRequest ''cloud.example.com'' ''/s/AbCdEf123'' None))
        \<in> set (events (ServeHTTP sampleLib sampleBackend sampleClock sampleHandler
              (sampleRequest ''cloud.example.com'' ''/s/AbCdEf123'' None)))
   \<and> limiter (ServeHTTP sampleLib sampleBackend sampleClock sampleHandler
          (sampleRequest ''cloud.example.com'' ''/s/AbCdEf123'' None))
       = snd (IsAllowed (rateLimiter sampleHandler)
               (getClientIP sampleLib (sampleRequest ''cloud.example.com'' ''/s/AbCdEf123'' None))
               (nowIsAllowed sampleClock))"
proof -
  let ?r = "sampleRequest ''cloud.example.com'' ''/s/AbCdEf123'' None"
  let ?sp = "\<lparr>spConfig = \<lparr>Type = ''nextcloud'', URL = ''http://cloud.internal:8080'',
                            Domain' = ''cloud.internal''\<rparr>\<rparr>"
  let ?st = "\<lparr>Name = ''nextcloud'', SharePaths = [''/s/''], ValidateMethod = ''head'',
                FullAccessAfterKnock = True\<rparr>"
  let ?r1 = "?r\<lparr>Header := (\<lambda>name. if name = ''X-Forwarded-For''
                                   then ''198.51.100.7, 10.0.0.1'' else [])\<rparr>"
  let ?r2 = "?r\<lparr>Header := (\<lambda>name. if name = ''X-Real-IP'' then ''198.51.100.8'' else [])\<rparr>"
  let ?r3 = "?r\<lparr>RemoteAddr := ''[2001:db8::1]:4711''\<rparr>"
  have a1: "Header ?r1 ''X-Forwarded-For'' \<noteq> []"
    by simp
  have b1: "strings_TrimSpace sampleLib
              (takeWhile (\<lambda>c. c \<noteq> CHR '','') (Header ?r1 ''X-Forwarded-For'')) = ''198.51.100.7''"
    by code_simp
  have a2: "Header ?r2 ''X-Forwarded-For'' = [] \<and> Header ?r2 ''X-Real-IP'' \<noteq> []"
    by simp
  have b2: "strings_TrimSpace sampleLib (Header ?r2 ''X-Real-IP'') = ''198.51.100.8''"
    by code_simp
  have a3: "Header ?r3 ''X-Forwarded-For'' = [] \<and> Header ?r3 ''X-Real-IP'' = []
       \<and> RemoteAddr ?r3 = ''['' @ ''2001:db8::1'' @ '']'' @ '':'' @ ''4711''
       \<and> CHR '':'' \<notin> set ''4711''
       \<and> set ''['' \<subseteq> set ''[]'' \<and> set '']'' \<subseteq> set ''[]''
       \<and> (''2001:db8::1'' = [] \<or>
           (hd ''2001:db8::1'' \<notin> set ''[]'' \<and> last ''2001:db8::1'' \<notin> set ''[]''))"
    by (simp add: sampleRequest_def)
  have a4: "''anyone'' \<noteq> [] \<and> CHR '','' \<notin> set ''anyone''
              \<and> strings_TrimSpace sampleLib ''anyone'' = ''anyone''"
    by code_simp
  have a5: "Call_IsAllowed ''203.0.113.9''
        \<in> set (events (ServeHTTP sampleLib sampleBackend sampleClock sampleHandler ?r))"
    by code_simp
  note t1 = client_identity_from_headers [where r = ?r1 and L = sampleLib, THEN conjunct1, THEN mp, OF a1]
  note t2 = client_identity_from_headers [where r = ?r2 and L = sampleLib,
              THEN conjunct2, THEN conjunct1, THEN mp, OF a2]
  note t3 = client_identity_from_headers [where r = ?r3 and L = sampleLib and brackets = "''[''"
              and host = "''2001:db8::1''" and brackets' = "'']''" and port = "''4711''",
              THEN conjunct2, THEN conjunct2, THEN conjunct1, THEN mp, OF a3]
  note t4 = client_identity_from_headers [where r = ?r and L = sampleLib and ident = "''anyone''",
              THEN conjunct2, THEN conjunct2, THEN conjunct2, THEN conjunct1, THEN mp, OF a4]
  have c1: "getClientIP sampleLib ?r1 = ''198.51.100.7''"
    using t1 by (simp only: b1)
  have c2: "getClientIP sampleLib ?r2 = ''198.51.100.8''"
    using t2 by (simp only: b2)
  note t5 = client_identity_from_headers [where r = ?r and L = sampleLib
              and ip = "''203.0.113.9''" and B = sampleBackend and clk = sampleClock
              and h = sampleHandler,
              THEN conjunct2, THEN conjunct2, THEN conjunct2, THEN conjunct2, THEN conjunct1,
              THEN mp, OF a5]
  have a6: "Call_LogAccess ''203.0.113.9'' ''GET'' ''/s/AbCdEf123'' 200
        \<in> set (events (ServeHTTP sampleLib sampleBackend sampleClock sampleHandler ?r))"
    by code_simp
  have a7: "Call_LogSecurity ''access_granted'' ''203.0.113.9''
          (ShareDetails ''/s/AbCdEf123'' ''nextcloud'')
        \<in> set (events (ServeHTTP sampleLib sampleBackend sampleClock sampleHandler ?r))"
    by code_simp
  have a8: "Call_LogValidation ''203.0.113.9'' ''/s/AbCdEf123'' True 200
        \<in> set (events (ServeHTTP sampleLib sampleBackend sampleClock sampleHandler ?r))"
    by code_simp
  note t6 = client_identity_from_headers [where r = ?r and L = sampleLib
              and ip' = "''203.0.113.9''" and m = "''GET''" and p = "''/s/AbCdEf123''"
              and s = 200 and B = sampleBackend and clk = sampleClock and h = sampleHandler,
              THEN conjunct2, THEN conjunct2, THEN conjunct2, THEN conjunct2, THEN conjunct2,
              THEN conjunct2, THEN conjunct1, THEN mp, OF a6]
  note t7 = client_identity_from_headers [where r = ?r and L = sampleLib
              and ip' = "''203.0.113.9''" and kind = "''access_granted''"
              and d = "ShareDetails ''/s/AbCdEf123'' ''nextcloud''"
              and B = sampleBackend and clk = sampleClock and h = sampleHandler,
              THEN conjunct2, THEN conjunct2, THEN conjunct2, THEN conjunct2, THEN conjunct2,
              THEN conjunct2, THEN conjunct2, THEN conjunct1, THEN mp, OF a7]
  note t8 = client_identity_from_headers [where r = ?r and L = sampleLib
              and ip' = "''203.0.113.9''" and p' = "''/s/AbCdEf123''" and v = True
              and s' = 200 and B = sampleBackend and clk = sampleClock and h = sampleHandler,
              THEN conjunct2, THEN conjunct2, THEN conjunct2, THEN conjunct2, THEN conjunct2,
              THEN conjunct2, THEN conjunct2, THEN conjunct2, THEN conjunct1, THEN mp, OF a8]
  have g1: "GetProxy (proxyManager sampleHandler) (Host ?r) = Some ?sp"
    by code_simp
  have g2: "SupportedServices (Type (GetServiceConfig ?sp)) = Some ?st"
    by code_simp
  have g3: "isSharePath (Path ?r) ?st"
    by code_simp
  have g5: "Cookies ?r ''sneak-link-token'' = None"
    by (simp add: sampleRequest_def)
  then have g4: "\<not> FullAccessAfterKnock ?st \<or>
           (\<forall>c. Cookies ?r ''sneak-link-token'' = Some c \<longrightarrow>
              (\<exists>err. ValidateToken sampleLib (nowValidateToken sampleClock) c
                       (SigningKey (config sampleHandler)) = Inl err))"
    by simp
  note a9 = conjI [OF g1 conjI [OF g2 conjI [OF g3 g4]]]
  note t9 = client_identity_from_headers [where r = ?r and L = sampleLib
              and B = sampleBackend and clk = sampleClock and h = sampleHandler
              and sp = ?sp and st = ?st,
              THEN conjunct2, THEN conjunct2, THEN conjunct2, THEN conjunct2, THEN conjunct2,
              THEN conjunct2, THEN conjunct2, THEN conjunct2, THEN conjunct2, THEN conjunct2,
              THEN mp, OF a9]
  show ?thesis
    by (intro conjI)
       (rule c1, rule c2, rule t3, rule t4, rule a5, rule t5,
        rule a6, rule t6 [THEN conjunct1], rule t6 [THEN conjunct2, THEN conjunct1],
        rule t6 [THEN conjunct2, THEN conjunct2],
        rule a7, rule t7, rule a8, rule t8,
        rule g1, rule g3, rule g5,
        rule t9 [THEN conjunct1], rule t9 [THEN conjunct2])
qed

end
